theory Spec2Isabelle
  imports Complex_Main
begin

section \<open>Python values\<close>

text \<open>
  Python integers are unbounded and are modelled by \<open>int\<close>; \<open>//\<close> is \<open>div\<close>.
  A Python float is a binary64 number, modelled by the rational that it denotes. Every
  float literal, every conversion of an integer to a float and every arithmetic operation
  on floats rounds its exact result to binary64, which is written out with \<open>fl\<close> below.
\<close>

type_synonym pyfloat = rat

text \<open>\<open>int(x)\<close> on a float truncates towards zero.\<close>

definition py_int :: "pyfloat \<Rightarrow> int" where
  "py_int x = (if 0 \<le> x then \<lfloor>x\<rfloor> else \<lceil>x\<rceil>)"

text \<open>\<open>int.bit_length\<close>: the number of binary digits of a natural number.\<close>

fun bit_length :: "nat \<Rightarrow> nat" where
  "bit_length n = (if n = 0 then 0 else Suc (bit_length (n div 2)))"

declare bit_length.simps [simp del]

text \<open>The binary exponent of a positive rational: the \<open>e\<close> with \<open>2^e \<le> x < 2^(e+1)\<close>.\<close>

definition ilog2 :: "rat \<Rightarrow> int" where
  "ilog2 x =
     (if 1 \<le> x then int (bit_length (nat \<lfloor>x\<rfloor>)) - 1
      else - int (bit_length (nat (\<lceil>1 / x\<rceil> - 1))))"

definition round_half_even :: "rat \<Rightarrow> int" where
  "round_half_even x =
     (let n = \<lfloor>x\<rfloor>; r = x - of_int n
      in if r < 1 / 2 then n
         else if 1 / 2 < r then n + 1
         else if even n then n else n + 1)"

text \<open>
  Rounding to binary64: 53 significant bits, round to nearest, ties to even. The exponent
  range of binary64 is not modelled. In Python the conversion of an integer that rounds to
  \<open>2^1024\<close> or more in magnitude raises \<open>OverflowError\<close>, and so does \<open>math.pow\<close> with a result
  of that magnitude; the functions below are the code on integers that stay clear of that
  range, and the theorems on results that floats decide bound the integers that enter them.
\<close>

definition fl :: "rat \<Rightarrow> pyfloat" where
  "fl x =
     (if x = 0 then 0
      else let e = ilog2 \<bar>x\<bar> - 52
           in of_int (round_half_even (x / power_int 2 e)) * power_int 2 e)"

text \<open>
  The arithmetic of floats. An integer operand of \<open>*\<close>, \<open>+\<close> or \<open>-\<close> whose other operand is
  a float is converted to a float first; a float literal \<open>0.01\<close> is \<open>fl (1 / 100)\<close>.
\<close>

definition float_of_int :: "int \<Rightarrow> pyfloat" where
  "float_of_int i = fl (of_int i)"

definition float_mul :: "pyfloat \<Rightarrow> pyfloat \<Rightarrow> pyfloat" where
  "float_mul a b = fl (a * b)"

definition float_add :: "pyfloat \<Rightarrow> pyfloat \<Rightarrow> pyfloat" where
  "float_add a b = fl (a + b)"

definition float_sub :: "pyfloat \<Rightarrow> pyfloat \<Rightarrow> pyfloat" where
  "float_sub a b = fl (a - b)"

text \<open>\<open>a / b\<close> on two integers, \<open>b\<close> not zero: the quotient, rounded once.\<close>

definition int_true_div :: "int \<Rightarrow> int \<Rightarrow> pyfloat" where
  "int_true_div a b = fl (of_int a / of_int b)"


text \<open>\<open>str(n)\<close> for an integer.\<close>

definition digit_char :: "nat \<Rightarrow> char" where
  "digit_char n = ''0123456789'' ! (n mod 10)"

fun str_nat :: "nat \<Rightarrow> string" where
  "str_nat n =
     (if n < 10 then [digit_char n]
      else str_nat (n div 10) @ [digit_char (n mod 10)])"

declare str_nat.simps [simp del]

definition str_int :: "int \<Rightarrow> string" where
  "str_int i = (if i < 0 then CHR ''-'' # str_nat (nat (- i)) else str_nat (nat i))"

section \<open>Items (items.py)\<close>

datatype ItemType = CONSUMABLE | WEAPON | ARMOR | ACCESSORY | MATERIAL | QUEST

text \<open>
  The item classes, with the attributes that the character and the combat code read:
  the name, a consumable's effect, an equipment's \<open>stats\<close> dictionary (in insertion order,
  as \<open>items()\<close> iterates it) and a weapon's \<open>damage\<close>. An \<open>Armor\<close> carries its \<open>stats\<close> as its
  constructor leaves them, the defense bonus already added.
\<close>

datatype item =
    Consumable string string int
  | Weapon string int "(string \<times> int) list"
  | Armor string int "(string \<times> int) list"
  | Accessory string "(string \<times> int) list"
  | Material string
  | QuestItem string

fun item_name :: "item \<Rightarrow> string" where
  "item_name (Consumable n _ _) = n"
| "item_name (Weapon n _ _) = n"
| "item_name (Armor n _ _) = n"
| "item_name (Accessory n _) = n"
| "item_name (Material n) = n"
| "item_name (QuestItem n) = n"

fun item_type :: "item \<Rightarrow> ItemType" where
  "item_type (Consumable _ _ _) = CONSUMABLE"
| "item_type (Weapon _ _ _) = WEAPON"
| "item_type (Armor _ _ _) = ARMOR"
| "item_type (Accessory _ _) = ACCESSORY"
| "item_type (Material _) = MATERIAL"
| "item_type (QuestItem _) = QUEST"

text \<open>\<open>item.stats\<close> where \<open>hasattr(item, 'stats')\<close>, and \<open>weapon.damage\<close> where
  \<open>hasattr(weapon, 'damage')\<close>; \<open>None\<close> has neither.\<close>

fun item_stats :: "item option \<Rightarrow> (string \<times> int) list option" where
  "item_stats (Some (Weapon _ _ st)) = Some st"
| "item_stats (Some (Armor _ _ st)) = Some st"
| "item_stats (Some (Accessory _ st)) = Some st"
| "item_stats _ = None"

fun item_damage :: "item option \<Rightarrow> int option" where
  "item_damage (Some (Weapon _ d _)) = Some d"
| "item_damage _ = None"

section \<open>Character (character.py)\<close>

text \<open>
  The three dictionaries of a character have the keys that \<open>__init__\<close> gives them, and no
  method adds or removes a key: they are records, with the lookup by key name written out.
  Every subscript in the methods below is on one of these keys, or on a key that the method
  has just tested for, so that none of them raises \<open>KeyError\<close>; no method has a \<open>raise\<close>.
\<close>

record stat_dict =
  max_hp :: int
  hp :: int
  strength :: int
  defense :: int
  agility :: int
  intelligence :: int
  luck :: int

record bonus_dict =
  max_hp_bonus :: int
  strength_bonus :: int
  defense_bonus :: int
  agility_bonus :: int
  intelligence_bonus :: int
  luck_bonus :: int

record slot_dict =
  weapon :: "item option"
  armor :: "item option"
  accessory :: "item option"

record Character =
  name :: string
  level :: int
  xp :: int
  xp_to_next_level :: int
  base_stats :: stat_dict
  equipment_bonuses :: bonus_dict
  equipped :: slot_dict
  is_alive :: bool
  gold :: int
  stat_points :: int

definition Character_init :: "string \<Rightarrow> Character" where
  "Character_init nm =
     \<lparr> name = nm, level = 1, xp = 0, xp_to_next_level = 100,
       base_stats = \<lparr> max_hp = 100, hp = 100, strength = 10, defense = 10, agility = 10,
                      intelligence = 10, luck = 10 \<rparr>,
       equipment_bonuses = \<lparr> max_hp_bonus = 0, strength_bonus = 0, defense_bonus = 0,
                             agility_bonus = 0, intelligence_bonus = 0, luck_bonus = 0 \<rparr>,
       equipped = \<lparr> weapon = None, armor = None, accessory = None \<rparr>,
       is_alive = True, gold = 50, stat_points = 5 \<rparr>"

text \<open>\<open>d.get(k)\<close> on \<open>base_stats\<close>: \<open>None\<close> for a name that is not a key.\<close>

definition base_get :: "stat_dict \<Rightarrow> string \<Rightarrow> int option" where
  "base_get d k =
     (if k = ''max_hp'' then Some (max_hp d)
      else if k = ''hp'' then Some (hp d)
      else if k = ''strength'' then Some (strength d)
      else if k = ''defense'' then Some (defense d)
      else if k = ''agility'' then Some (agility d)
      else if k = ''intelligence'' then Some (intelligence d)
      else if k = ''luck'' then Some (luck d)
      else None)"

text \<open>\<open>d[k] += v\<close> on \<open>base_stats\<close>; the callers have checked that \<open>k\<close> is a key.\<close>

definition base_add :: "stat_dict \<Rightarrow> string \<Rightarrow> int \<Rightarrow> stat_dict" where
  "base_add d k v =
     (if k = ''max_hp'' then d\<lparr>max_hp := max_hp d + v\<rparr>
      else if k = ''hp'' then d\<lparr>hp := hp d + v\<rparr>
      else if k = ''strength'' then d\<lparr>strength := strength d + v\<rparr>
      else if k = ''defense'' then d\<lparr>defense := defense d + v\<rparr>
      else if k = ''agility'' then d\<lparr>agility := agility d + v\<rparr>
      else if k = ''intelligence'' then d\<lparr>intelligence := intelligence d + v\<rparr>
      else if k = ''luck'' then d\<lparr>luck := luck d + v\<rparr>
      else d)"

definition bonus_get :: "bonus_dict \<Rightarrow> string \<Rightarrow> int option" where
  "bonus_get d k =
     (if k = ''max_hp'' then Some (max_hp_bonus d)
      else if k = ''strength'' then Some (strength_bonus d)
      else if k = ''defense'' then Some (defense_bonus d)
      else if k = ''agility'' then Some (agility_bonus d)
      else if k = ''intelligence'' then Some (intelligence_bonus d)
      else if k = ''luck'' then Some (luck_bonus d)
      else None)"

definition bonus_add :: "bonus_dict \<Rightarrow> string \<Rightarrow> int \<Rightarrow> bonus_dict" where
  "bonus_add d k v =
     (if k = ''max_hp'' then d\<lparr>max_hp_bonus := max_hp_bonus d + v\<rparr>
      else if k = ''strength'' then d\<lparr>strength_bonus := strength_bonus d + v\<rparr>
      else if k = ''defense'' then d\<lparr>defense_bonus := defense_bonus d + v\<rparr>
      else if k = ''agility'' then d\<lparr>agility_bonus := agility_bonus d + v\<rparr>
      else if k = ''intelligence'' then d\<lparr>intelligence_bonus := intelligence_bonus d + v\<rparr>
      else if k = ''luck'' then d\<lparr>luck_bonus := luck_bonus d + v\<rparr>
      else d)"

text \<open>\<open>self.equipped[slot]\<close>: \<open>None\<close> for a name that is not a slot, else the slot's content.\<close>

definition slot_get :: "slot_dict \<Rightarrow> string \<Rightarrow> item option option" where
  "slot_get d s =
     (if s = ''weapon'' then Some (weapon d)
      else if s = ''armor'' then Some (armor d)
      else if s = ''accessory'' then Some (accessory d)
      else None)"

definition slot_set :: "slot_dict \<Rightarrow> string \<Rightarrow> item option \<Rightarrow> slot_dict" where
  "slot_set d s it =
     (if s = ''weapon'' then d\<lparr>weapon := it\<rparr>
      else if s = ''armor'' then d\<lparr>armor := it\<rparr>
      else if s = ''accessory'' then d\<lparr>accessory := it\<rparr>
      else d)"

definition get_stat :: "Character \<Rightarrow> string \<Rightarrow> int" where
  "get_stat c stat_name =
     (let base = (case base_get (base_stats c) stat_name of None \<Rightarrow> 0 | Some b \<Rightarrow> b);
          bonus = (case bonus_get (equipment_bonuses c) stat_name of None \<Rightarrow> 0 | Some b \<Rightarrow> b)
      in base + bonus)"

definition get_max_hp :: "Character \<Rightarrow> int" where
  "get_max_hp c = get_stat c ''max_hp''"

definition get_current_hp :: "Character \<Rightarrow> int" where
  "get_current_hp c = hp (base_stats c)"

definition set_hp :: "Character \<Rightarrow> int \<Rightarrow> Character" where
  "set_hp c v = c\<lparr>base_stats := (base_stats c)\<lparr>hp := v\<rparr>\<rparr>"

text \<open>Every method returns its result with the character it leaves behind.\<close>

definition heal :: "Character \<Rightarrow> int \<Rightarrow> int \<times> Character" where
  "heal c amount =
     (let old_hp = hp (base_stats c);
          mx = get_max_hp c;
          c' = set_hp c (min mx (hp (base_stats c) + amount));
          actual_healed = hp (base_stats c') - old_hp
      in (actual_healed, c'))"

definition take_damage :: "Character \<Rightarrow> int \<Rightarrow> int \<times> Character" where
  "take_damage c damage =
     (let dfn = get_stat c ''defense'';
          damage_reduction = float_mul (float_of_int dfn) (fl (1 / 2));
          actual_damage = max 1 (py_int (float_sub (float_of_int damage) damage_reduction));
          c1 = set_hp c (hp (base_stats c) - actual_damage);
          c2 = (if hp (base_stats c1) \<le> 0 then (set_hp c1 0)\<lparr>is_alive := False\<rparr> else c1)
      in (actual_damage, c2))"

definition is_dead :: "Character \<Rightarrow> bool" where
  "is_dead c = (\<not> is_alive c \<or> hp (base_stats c) \<le> 0)"

definition revive :: "Character \<Rightarrow> pyfloat \<Rightarrow> Character" where
  "revive c hp_percentage =
     (if \<not> is_alive c
      then set_hp (c\<lparr>is_alive := True\<rparr>)
             (py_int (float_mul (float_of_int (get_max_hp c)) hp_percentage))
      else c)"


definition allocate_stat :: "Character \<Rightarrow> string \<Rightarrow> int \<Rightarrow> bool \<times> Character" where
  "allocate_stat c stat_name points =
     (if base_get (base_stats c) stat_name = None then (False, c)
      else if stat_name = ''hp'' then (False, c)
      else if points > stat_points c then (False, c)
      else
        let c1 = (if stat_name = ''max_hp''
                  then c\<lparr>base_stats := (base_stats c)\<lparr>max_hp := max_hp (base_stats c) + points * 5,
                                                       hp := hp (base_stats c) + points * 5\<rparr>\<rparr>
                  else c\<lparr>base_stats := base_add (base_stats c) stat_name points\<rparr>)
        in (True, c1\<lparr>stat_points := stat_points c1 - points\<rparr>))"

text \<open>The loop of \<open>equip_item\<close> over \<open>item.stats.items()\<close>.\<close>

fun apply_bonuses :: "(string \<times> int) list \<Rightarrow> Character \<Rightarrow> Character" where
  "apply_bonuses [] c = c"
| "apply_bonuses ((stat, v) # rest) c =
     apply_bonuses rest
       (if bonus_get (equipment_bonuses c) stat \<noteq> None
        then let c1 = c\<lparr>equipment_bonuses := bonus_add (equipment_bonuses c) stat v\<rparr>
             in if stat = ''max_hp'' then set_hp c1 (hp (base_stats c1) + v) else c1
        else c)"

text \<open>The loop of \<open>unequip_item\<close> over \<open>item.stats.items()\<close>.\<close>

fun remove_bonuses :: "(string \<times> int) list \<Rightarrow> Character \<Rightarrow> Character" where
  "remove_bonuses [] c = c"
| "remove_bonuses ((stat, v) # rest) c =
     remove_bonuses rest
       (if bonus_get (equipment_bonuses c) stat \<noteq> None
        then let c1 = c\<lparr>equipment_bonuses := bonus_add (equipment_bonuses c) stat (- v)\<rparr>
             in if stat = ''max_hp''
                then set_hp c1 (min (hp (base_stats c1)) (get_max_hp c1))
                else c1
        else c)"

definition unequip_item :: "Character \<Rightarrow> string \<Rightarrow> item option \<times> Character" where
  "unequip_item c slot =
     (case slot_get (equipped c) slot of
        None \<Rightarrow> (None, c)
      | Some None \<Rightarrow> (None, c)
      | Some (Some it) \<Rightarrow>
          let c1 = (case item_stats (Some it) of
                      None \<Rightarrow> c
                    | Some st \<Rightarrow> remove_bonuses st c)
          in (Some it, c1\<lparr>equipped := slot_set (equipped c1) slot None\<rparr>))"

definition equip_item :: "Character \<Rightarrow> item option \<Rightarrow> string \<Rightarrow> item option \<times> Character" where
  "equip_item c it slot =
     (case slot_get (equipped c) slot of
        None \<Rightarrow> (None, c)
      | Some old_item \<Rightarrow>
          let c1 = (if old_item \<noteq> None then snd (unequip_item c slot) else c);
              c2 = c1\<lparr>equipped := slot_set (equipped c1) slot it\<rparr>;
              c3 = (case item_stats it of
                      None \<Rightarrow> c2
                    | Some st \<Rightarrow> apply_bonuses st c2)
          in (old_item, c3))"

definition get_attack_damage :: "Character \<Rightarrow> int" where
  "get_attack_damage c =
     (let base_damage = get_stat c ''strength'' * 2
      in case item_damage (weapon (equipped c)) of
           Some d \<Rightarrow> base_damage + d
         | None \<Rightarrow> base_damage)"

definition get_dodge_chance :: "Character \<Rightarrow> pyfloat" where
  "get_dodge_chance c =
     (let agi = get_stat c ''agility''
      in min (fl (1 / 2)) (float_mul (float_of_int agi) (fl (1 / 100))))"

definition get_crit_chance :: "Character \<Rightarrow> pyfloat" where
  "get_crit_chance c =
     (let lck = get_stat c ''luck''
      in min (fl (1 / 2)) (float_mul (float_of_int lck) (fl (5 / 1000))))"

section \<open>Enemies and combat (combat.py)\<close>

datatype EnemyType = BEAST | HUMANOID | UNDEAD | DRAGON | DEMON

record Enemy =
  enemy_id :: string
  enemy_name :: string
  enemy_level :: int
  enemy_max_hp :: int
  enemy_hp :: int
  enemy_strength :: int
  enemy_defense :: int
  enemy_agility :: int
  xp_reward :: int
  gold_reward :: int
  enemy_type :: EnemyType
  loot_table :: "(string \<times> pyfloat) list"

definition Enemy_init ::
  "string \<Rightarrow> string \<Rightarrow> int \<Rightarrow> int \<Rightarrow> int \<Rightarrow> int \<Rightarrow> int \<Rightarrow> int \<Rightarrow> int \<Rightarrow> EnemyType
     \<Rightarrow> (string \<times> pyfloat) list \<Rightarrow> Enemy" where
  "Enemy_init eid nm lvl h str dfn agi xpr gr ty lt =
     \<lparr> enemy_id = eid, enemy_name = nm, enemy_level = lvl, enemy_max_hp = h, enemy_hp = h,
       enemy_strength = str, enemy_defense = dfn, enemy_agility = agi, xp_reward = xpr,
       gold_reward = gr, enemy_type = ty, loot_table = lt \<rparr>"

definition enemy_take_damage :: "Enemy \<Rightarrow> int \<Rightarrow> int \<times> Enemy" where
  "enemy_take_damage e damage =
     (let damage_reduction = float_mul (float_of_int (enemy_defense e)) (fl (1 / 2));
          actual_damage = max 1 (py_int (float_sub (float_of_int damage) damage_reduction))
      in (actual_damage, e\<lparr>enemy_hp := max 0 (enemy_hp e - actual_damage)\<rparr>))"

definition enemy_is_alive :: "Enemy \<Rightarrow> bool" where
  "enemy_is_alive e = (enemy_hp e > 0)"

text \<open>\<open>variance\<close> is the value that \<open>random.randint(-2, 2)\<close> returns.\<close>

definition enemy_get_attack_damage :: "Enemy \<Rightarrow> int \<Rightarrow> int" where
  "enemy_get_attack_damage e variance =
     (let base_damage = enemy_strength e * 2 in max 1 (base_damage + variance))"

text \<open>
  The loop of \<open>get_loot\<close> over the loot table, in the order of the dictionary;
  \<open>draws i\<close> is the value that the \<open>i\<close>-th call of \<open>random.random()\<close> returns.
\<close>

fun loot_loop :: "(string \<times> pyfloat) list \<Rightarrow> (nat \<Rightarrow> pyfloat) \<Rightarrow> nat \<Rightarrow> string list" where
  "loot_loop [] draws i = []"
| "loot_loop ((item_id, drop_chance) # rest) draws i =
     (if draws i < drop_chance then item_id # loot_loop rest draws (Suc i)
      else loot_loop rest draws (Suc i))"

definition get_loot :: "Enemy \<Rightarrow> (nat \<Rightarrow> pyfloat) \<Rightarrow> string list" where
  "get_loot e draws = loot_loop (loot_table e) draws 0"

datatype CombatAction = ATTACK | DEFEND | USE_ITEM | FLEE

datatype CombatResult = ONGOING | VICTORY | DEFEAT | FLED

record Combat =
  character :: Character
  enemy :: Enemy
  turn_count :: int
  result :: CombatResult
  combat_log :: "string list"
  is_defending :: bool
  flee_attempts :: int

definition Combat_init :: "Character \<Rightarrow> Enemy \<Rightarrow> Combat" where
  "Combat_init c e =
     \<lparr> character = c, enemy = e, turn_count = 0, result = ONGOING, combat_log = [],
       is_defending = False, flee_attempts = 0 \<rparr>"

text \<open>
  The values that the random source returns during one call of \<open>execute_turn\<close>, one field
  for each place that draws; each place is reached at most once in a turn.
\<close>

record rolls =
  player_order_draw :: int
  enemy_order_draw :: int
  crit_draw :: pyfloat
  flee_draw :: pyfloat
  dodge_draw :: pyfloat
  variance_draw :: int

definition log :: "Combat \<Rightarrow> string \<Rightarrow> Combat" where
  "log s message = s\<lparr>combat_log := combat_log s @ [message]\<rparr>"

definition get_turn_order :: "Combat \<Rightarrow> rolls \<Rightarrow> string list" where
  "get_turn_order s r =
     (let player_agility = get_stat (character s) ''agility'';
          enemy_agi = enemy_agility (enemy s);
          player_roll = player_agility + player_order_draw r;
          enemy_roll = enemy_agi + enemy_order_draw r
      in if player_roll \<ge> enemy_roll then [''player'', ''enemy''] else [''enemy'', ''player''])"

text \<open>The collision emoji that opens the two messages of a critical hit, in UTF-8.\<close>

definition boom :: string where
  "boom = [CHR 0xF0, CHR 0x9F, CHR 0x92, CHR 0xA5]"

text \<open>The raw damage of a critical hit: \<open>int(base_damage * 1.5)\<close>.\<close>

definition crit_damage :: "int \<Rightarrow> int" where
  "crit_damage base_damage = py_int (float_mul (float_of_int base_damage) (fl (3 / 2)))"

definition player_attack :: "Combat \<Rightarrow> rolls \<Rightarrow> string \<times> Combat" where
  "player_attack s r =
     (let base_damage = get_attack_damage (character s);
          crit_chance = get_crit_chance (character s);
          is_crit = (crit_draw r < crit_chance)
      in if is_crit
         then let damage = crit_damage base_damage;
                  (damage_dealt, e') = enemy_take_damage (enemy s) damage;
                  s1 = log (s\<lparr>enemy := e'\<rparr>)
                         (boom @ '' CRITICAL HIT! You deal '' @ str_int damage_dealt
                            @ '' damage to '' @ enemy_name e' @ ''!'')
              in (boom @ '' CRITICAL HIT! You deal '' @ str_int damage_dealt @ '' damage!'', s1)
         else let (damage_dealt, e') = enemy_take_damage (enemy s) base_damage;
                  s1 = log (s\<lparr>enemy := e'\<rparr>)
                         (''You attack '' @ enemy_name e' @ '' for '' @ str_int damage_dealt
                            @ '' damage.'')
              in (''You deal '' @ str_int damage_dealt @ '' damage!'', s1))"

definition enemy_attack :: "Combat \<Rightarrow> rolls \<Rightarrow> string \<times> Combat" where
  "enemy_attack s r =
     (let dodge_chance = get_dodge_chance (character s)
      in if dodge_draw r < dodge_chance
         then (''You dodged the attack!'',
               log s (''You dodge '' @ enemy_name (enemy s) @ [CHR 0x27] @ ''s attack!''))
         else
           let damage = enemy_get_attack_damage (enemy s) (variance_draw r);
               (damage, s1) =
                  (if is_defending s
                   then (py_int (float_mul (float_of_int damage) (fl (1 / 2))),
                         log (s\<lparr>is_defending := False\<rparr>)
                           (enemy_name (enemy s) @ '' attacks! Your defense reduces damage.''))
                   else (damage, s));
               (damage_taken, c') = take_damage (character s1) damage;
               s2 = log (s1\<lparr>character := c'\<rparr>)
                      (enemy_name (enemy s1) @ '' attacks you for '' @ str_int damage_taken
                         @ '' damage!'')
           in (enemy_name (enemy s2) @ '' deals '' @ str_int damage_taken @ '' damage!'', s2))"

definition player_defend :: "Combat \<Rightarrow> string \<times> Combat" where
  "player_defend s =
     (''You brace for the next attack!'',
      log (s\<lparr>is_defending := True\<rparr>) ''You take a defensive stance.'')"

text \<open>\<open>Consumable.use\<close>, on the consumable's \<open>effect_type\<close> and \<open>effect_amount\<close>.\<close>

definition use :: "string \<Rightarrow> int \<Rightarrow> Character \<Rightarrow> string \<times> Character" where
  "use effect_type effect_amount c =
     (if effect_type = ''heal''
      then let (healed, c') = heal c effect_amount
           in (''Healed '' @ str_int healed @ '' HP!'', c')
      else if effect_type = ''max_hp_boost''
      then (''Maximum HP increased by '' @ str_int effect_amount @ ''!'',
            c\<lparr>base_stats := (base_stats c)\<lparr>max_hp := max_hp (base_stats c) + effect_amount,
                                            hp := hp (base_stats c) + effect_amount\<rparr>\<rparr>)
      else if effect_type = ''revive''
      then (if is_dead c
            then (''Revived with '' @ str_int effect_amount @ ''% HP!'',
                  revive c (int_true_div effect_amount 100))
            else (''Character is not dead!'', c))
      else (''Used item.'', c))"

text \<open>Only a \<open>Consumable\<close> has the item type \<open>CONSUMABLE\<close>, and it has the method \<open>use\<close>.\<close>

definition player_use_item :: "Combat \<Rightarrow> item option \<Rightarrow> (bool \<times> string) \<times> Combat" where
  "player_use_item s it =
     (case it of
        None \<Rightarrow> ((False, ''No item selected.''), s)
      | Some (Consumable nm effect_type effect_amount) \<Rightarrow>
          let (effect_msg, c') = use effect_type effect_amount (character s);
              s1 = log (s\<lparr>character := c'\<rparr>) (''You use '' @ nm @ ''. '' @ effect_msg)
          in ((True, effect_msg), s1)
      | Some _ \<Rightarrow> ((False, ''Cannot use that item in combat.''), s))"

text \<open>The local \<open>flee_chance\<close> of \<open>attempt_flee\<close>, computed once the counter is incremented.\<close>

definition flee_chance :: "Combat \<Rightarrow> pyfloat" where
  "flee_chance s =
     (let chance = float_sub (fl (1 / 2)) (float_mul (float_of_int (flee_attempts s)) (fl (1 / 10)));
          player_agility = get_stat (character s) ''agility'';
          agility_bonus = float_mul (float_of_int player_agility) (fl (1 / 100));
          chance = float_add chance agility_bonus;
          level_difference = enemy_level (enemy s) - level (character s);
          chance = float_sub chance (float_mul (float_of_int level_difference) (fl (5 / 100)))
      in max (fl (1 / 10)) (min (fl (9 / 10)) chance))"

definition attempt_flee :: "Combat \<Rightarrow> rolls \<Rightarrow> (bool \<times> string) \<times> Combat" where
  "attempt_flee s r =
     (let s1 = s\<lparr>flee_attempts := flee_attempts s + 1\<rparr>
      in if flee_draw r < flee_chance s1
         then ((True, ''You escaped!''),
               log (s1\<lparr>result := FLED\<rparr>) ''You successfully fled from combat!'')
         else ((False, ''Couldn'' @ [CHR 0x27] @ ''t escape!''), log s1 ''Failed to flee!''))"

text \<open>
  The loop of \<open>execute_turn\<close>. Each body returns how the loop goes on: to the next actor,
  out of the loop by \<open>break\<close>, or out of the function by \<open>return\<close>.
\<close>

datatype flow = Continue | Break | Return

definition player_turn ::
  "CombatAction \<Rightarrow> item option \<Rightarrow> rolls \<Rightarrow> string list \<Rightarrow> Combat \<Rightarrow> flow \<times> string list \<times> Combat" where
  "player_turn player_action it r turn_messages s =
     (let (ctl, msgs, s1) =
        (case player_action of
           ATTACK \<Rightarrow>
             let (msg, s') = player_attack s r in (Continue, turn_messages @ [msg], s')
         | DEFEND \<Rightarrow>
             let (msg, s') = player_defend s in (Continue, turn_messages @ [msg], s')
         | USE_ITEM \<Rightarrow>
             let ((success, msg), s') = player_use_item s it
             in (if \<not> success then Return else Continue, turn_messages @ [msg], s')
         | FLEE \<Rightarrow>
             let ((success, msg), s') = attempt_flee s r
             in (if success then Return else Continue, turn_messages @ [msg], s'))
      in if ctl = Return then (Return, msgs, s1)
         else if \<not> enemy_is_alive (enemy s1) then (Break, msgs, s1\<lparr>result := VICTORY\<rparr>)
         else (Continue, msgs, s1))"

definition enemy_turn :: "rolls \<Rightarrow> string list \<Rightarrow> Combat \<Rightarrow> flow \<times> string list \<times> Combat" where
  "enemy_turn r turn_messages s =
     (let (msg, s1) = enemy_attack s r;
          msgs = turn_messages @ [msg]
      in if is_dead (character s1) then (Break, msgs, s1\<lparr>result := DEFEAT\<rparr>)
         else (Continue, msgs, s1))"

fun turn_loop ::
  "string list \<Rightarrow> CombatAction \<Rightarrow> item option \<Rightarrow> rolls \<Rightarrow> string list \<Rightarrow> Combat
     \<Rightarrow> string list \<times> Combat" where
  "turn_loop [] player_action it r turn_messages s = (turn_messages, s)"
| "turn_loop (actor # rest) player_action it r turn_messages s =
     (if result s \<noteq> ONGOING then (turn_messages, s)
      else case (if actor = ''player'' then player_turn player_action it r turn_messages s
                 else enemy_turn r turn_messages s) of
             (Continue, msgs, s') \<Rightarrow> turn_loop rest player_action it r msgs s'
           | (_, msgs, s') \<Rightarrow> (msgs, s'))"

definition execute_turn ::
  "Combat \<Rightarrow> CombatAction \<Rightarrow> item option \<Rightarrow> rolls \<Rightarrow> string list \<times> Combat" where
  "execute_turn s player_action it r =
     (let s1 = s\<lparr>turn_count := turn_count s + 1\<rparr>;
          turn_order = get_turn_order s1 r
      in turn_loop turn_order player_action it r [] s1)"

text \<open>The dictionary that \<open>get_rewards\<close> returns.\<close>

record rewards =
  rewards_xp :: int
  rewards_gold :: int
  rewards_loot :: "string list"

definition get_rewards :: "Combat \<Rightarrow> (nat \<Rightarrow> pyfloat) \<Rightarrow> rewards" where
  "get_rewards s draws =
     (if result s \<noteq> VICTORY then \<lparr> rewards_xp = 0, rewards_gold = 0, rewards_loot = [] \<rparr>
      else
        let xpv = xp_reward (enemy s);
            gld = gold_reward (enemy s);
            lck = get_stat (character s) ''luck'';
            gold_bonus =
              py_int (float_mul (float_of_int gld) (float_mul (float_of_int lck) (fl (1 / 100))));
            gld = gld + gold_bonus;
            loot = get_loot (enemy s) draws
        in \<lparr> rewards_xp = xpv, rewards_gold = gld, rewards_loot = loot \<rparr>)"

section \<open>The enemy roster and the statements of the specification\<close>

text \<open>Three entries of \<open>ENEMIES_DB\<close>, as \<open>create_enemy\<close> stamps them.\<close>

definition slime :: Enemy where
  "slime = Enemy_init ''slime'' ''Slime'' 1 30 5 2 3 10 5 BEAST
     [(''health_potion_small'', fl (3 / 10)), (''leather_scrap'', fl (2 / 10))]"

definition goblin :: Enemy where
  "goblin = Enemy_init ''goblin'' ''Goblin'' 2 50 8 5 6 20 10 HUMANOID
     [(''health_potion_small'', fl (4 / 10)), (''iron_ore'', fl (3 / 10)),
      (''rusty_sword'', fl (1 / 10))]"

definition vampire :: Enemy where
  "vampire = Enemy_init ''vampire'' ''Vampire Lord'' 10 200 30 25 15 150 100 UNDEAD
     [(''health_potion_supreme'', fl (3 / 10)), (''silver_rapier'', fl (15 / 100)),
      (''silver_ore'', fl (5 / 10))]"

text \<open>A fresh character, and the draws of two turns: all low, and all high.\<close>

definition hero :: Character where
  "hero = Character_init ''Hero''"

definition low_rolls :: rolls where
  "low_rolls = \<lparr> player_order_draw = 10, enemy_order_draw = 0, crit_draw = 0, flee_draw = 0,
                 dodge_draw = 0, variance_draw = - 2 \<rparr>"

definition high_rolls :: rolls where
  "high_rolls = \<lparr> player_order_draw = 0, enemy_order_draw = 10, crit_draw = 99 / 100,
                  flee_draw = 99 / 100, dodge_draw = 99 / 100, variance_draw = 2 \<rparr>"

definition mixed_rolls :: rolls where
  "mixed_rolls = \<lparr> player_order_draw = 10, enemy_order_draw = 0, crit_draw = 99 / 100,
                   flee_draw = 99 / 100, dodge_draw = 99 / 100, variance_draw = 0 \<rparr>"

text \<open>A slime with one hit point left, and a character with one hit point left.\<close>

definition weak_slime :: Enemy where
  "weak_slime = slime\<lparr>enemy_hp := 1\<rparr>"

definition weak_hero :: Character where
  "weak_hero = set_hp hero 1"

text \<open>The session as \<open>execute_turn\<close> has it once the turn is counted.\<close>

abbreviation counted :: "Combat \<Rightarrow> Combat" where
  "counted s \<equiv> s\<lparr>turn_count := turn_count s + 1\<rparr>"

text \<open>
  The damage formula in the words of the specification: the reduction is the floor of half
  the defense, and the damage dealt is the floor of the raw damage less the reduction, at
  least 1.
\<close>

definition spec_actual_damage :: "int \<Rightarrow> int \<Rightarrow> int" where
  "spec_actual_damage f d =
     (let reduction = \<lfloor>(of_int f :: rat) * (1 / 2)\<rfloor>
      in max 1 \<lfloor>(of_int d :: rat) - of_int reduction\<rfloor>)"

text \<open>
  The flee chance in the words of the specification, on the counter, the agility and the
  two levels: the clamp of the formula, in exact arithmetic.
\<close>

definition spec_flee_chance :: "int \<Rightarrow> int \<Rightarrow> int \<Rightarrow> int \<Rightarrow> rat" where
  "spec_flee_chance attempts agi enemy_lvl player_lvl =
     max (1 / 10) (min (9 / 10)
       (1 / 2 - (1 / 10) * of_int attempts + (1 / 100) * of_int agi
          - (5 / 100) * of_int (enemy_lvl - player_lvl)))"

text \<open>
  A session of a fresh character against the Slime after two failed attempts to flee, and
  the draws of a turn whose flee draw is the float \<open>0.29999999999999993\<close>.
\<close>

definition twice_failed :: Combat where
  "twice_failed = (Combat_init hero slime)\<lparr>flee_attempts := 2\<rparr>"

definition near_rolls :: rolls where
  "near_rolls = low_rolls\<lparr>flee_draw := 2702159776422297 / 9007199254740992\<rparr>"



text \<open>A sequence of calls of \<open>execute_turn\<close> on one session, each with its action, item and draws.\<close>

definition execute_turns :: "Combat \<Rightarrow> (CombatAction \<times> item option \<times> rolls) list \<Rightarrow> Combat" where
  "execute_turns s ts = foldl (\<lambda>s (a, it, r). snd (execute_turn s a it r)) s ts"


text \<open>The raw damage of a critical hit in the words of the specification: the floor of
  one and a half times the attack damage.\<close>

definition spec_crit_damage :: "int \<Rightarrow> int" where
  "spec_crit_damage b = \<lfloor>(3 / 2 :: rat) * of_int b\<rfloor>"

text \<open>
  A character whose attack damage is \<open>-1\<close>: \<open>allocate_stat\<close> accepts a negative number of
  points, which brings the strength of a fresh character to \<open>-1\<close>; the weapon has damage 1.
\<close>

definition stick :: item where
  "stick = Weapon ''Stick'' 1 []"

definition feeble_hero :: Character where
  "feeble_hero =
     snd (equip_item (snd (allocate_stat hero ''strength'' (- 11))) (Some stick) ''weapon'')"

text \<open>The gold of a victory in the words of the specification.\<close>

definition spec_gold :: "int \<Rightarrow> int \<Rightarrow> int" where
  "spec_gold gold_rew lck = gold_rew + \<lfloor>(of_int gold_rew :: rat) * (1 / 100) * of_int lck\<rfloor>"

text \<open>
  Two entries of \<open>ITEMS_DB\<close>, and a character with luck 29: one stat point on luck, the
  Dragon Slayer and the Silver Amulet.
\<close>

definition dragon_slayer :: item where
  "dragon_slayer = Weapon ''Dragon Slayer'' 45 [(''strength'', 20), (''agility'', 5), (''luck'', 10)]"

definition silver_amulet :: item where
  "silver_amulet = Accessory ''Silver Amulet'' [(''luck'', 8), (''max_hp'', 15)]"

definition lucky_hero :: Character where
  "lucky_hero =
     snd (equip_item
            (snd (equip_item (snd (allocate_stat hero ''luck'' 1)) (Some dragon_slayer) ''weapon''))
            (Some silver_amulet) ''accessory'')"

section \<open>The hit point invariant\<close>













section \<open>Rounding\<close>

lemma bit_length_le: "m < 2 ^ k \<Longrightarrow> bit_length m \<le> k"
proof (induction k arbitrary: m)
  case 0
  then show ?case by (simp add: bit_length.simps)
next
  case (Suc k)
  show ?case
  proof (cases "m = 0")
    case True
    then show ?thesis by (simp add: bit_length.simps)
  next
    case False
    from Suc.prems have "m div 2 < 2 ^ k" by simp
    from Suc.IH [OF this] False show ?thesis
      by (subst bit_length.simps) simp
  qed
qed

lemma bit_length_gt: "2 ^ k \<le> m \<Longrightarrow> k < bit_length m"
proof (induction k arbitrary: m)
  case 0
  then show ?case by (subst bit_length.simps) simp
next
  case (Suc k)
  from Suc.prems have "2 ^ k \<le> m div 2" by simp
  moreover have "(0::nat) < 2 ^ Suc k" by simp
  then have "m \<noteq> 0" using Suc.prems by linarith
  ultimately show ?case using Suc.IH [of "m div 2"]
    by (subst bit_length.simps) simp
qed

lemma bit_length_lower: "0 < m \<Longrightarrow> 2 ^ (bit_length m - 1) \<le> m"
proof (induction m rule: bit_length.induct)
  case (1 n)
  show ?case
  proof (cases "n div 2 = 0")
    case True
    with 1 have "n = 1" by (simp add: div_eq_0_iff) 
    then show ?thesis by (simp add: bit_length.simps)
  next
    case False
    with 1 have ih: "2 ^ (bit_length (n div 2) - 1) \<le> n div 2" by simp
    have pos: "0 < bit_length (n div 2)" using False by (subst bit_length.simps) simp
    have "bit_length n = Suc (bit_length (n div 2))"
      using 1 by (subst bit_length.simps) simp
    then have "(2::nat) ^ (bit_length n - 1) = 2 * 2 ^ (bit_length (n div 2) - 1)"
      using pos by (cases "bit_length (n div 2)") simp_all
    also have "\<dots> \<le> 2 * (n div 2)" using ih by simp
    also have "\<dots> \<le> n" by simp
    finally show ?thesis .
  qed
qed

lemma bit_length_upper: "m < 2 ^ bit_length m"
proof (induction m rule: bit_length.induct)
  case (1 n)
  show ?case
  proof (cases "n = 0")
    case True
    then show ?thesis by simp
  next
    case False
    with 1 have ih: "n div 2 < 2 ^ bit_length (n div 2)" by simp
    have "bit_length n = Suc (bit_length (n div 2))"
      using False by (subst bit_length.simps) simp
    with ih show ?thesis by simp
  qed
qed

text \<open>The binary exponent brackets its argument.\<close>

lemma ilog2_lower:
  assumes "0 < x"
  shows "power_int 2 (ilog2 x) \<le> x"
proof (cases "1 \<le> x")
  case True
  define n where "n = nat \<lfloor>x\<rfloor>"
  have n: "0 < n" "of_nat n \<le> x" using True by (simp_all add: n_def)
  have pos: "1 \<le> bit_length n" using bit_length_gt [of 0 n] n(1) by simp
  have "int (bit_length n - 1) = int (bit_length n) - 1"
    using pos by linarith
  then have "ilog2 x = int (bit_length n - 1)"
    using True by (simp add: ilog2_def n_def)
  then have "power_int (2 :: rat) (ilog2 x) = of_nat (2 ^ (bit_length n - 1))"
    by simp
  also have "\<dots> \<le> of_nat n"
    using bit_length_lower [OF n(1)] by (simp only: of_nat_le_iff)
  finally show ?thesis using n(2) by simp
next
  case False
  define c where "c = nat (\<lceil>1 / x\<rceil> - 1)"
  from False assms have "1 < 1 / x" by simp
  then have "of_int 1 < 1 / x" by simp
  then have "1 < \<lceil>1 / x\<rceil>" by (simp only: less_ceiling_iff)
  then have two: "2 \<le> \<lceil>1 / x\<rceil>" by simp
  then have "0 \<le> \<lceil>1 / x\<rceil> - 1" by linarith
  then have cz: "int c = \<lceil>1 / x\<rceil> - 1" unfolding c_def by (rule nat_0_le)
  have "1 / x \<le> of_int \<lceil>1 / x\<rceil>" by (rule le_of_int_ceiling)
  also have "\<lceil>1 / x\<rceil> = int c + 1" using cz by linarith
  finally have "1 / x \<le> of_nat (c + 1)" by simp
  also have "\<dots> \<le> of_nat (2 ^ bit_length c)"
    using bit_length_upper [of c] by (simp only: of_nat_le_iff)
  finally have le: "1 / x \<le> 2 ^ bit_length c" by simp
  have "ilog2 x = - int (bit_length c)"
    using False by (simp add: ilog2_def c_def)
  then have "power_int (2 :: rat) (ilog2 x) = 1 / 2 ^ bit_length c"
    by (simp add: power_int_minus field_simps)
  also have "\<dots> \<le> x"
    using le assms by (simp add: field_simps)
  finally show ?thesis .
qed

lemma ilog2_upper:
  assumes "0 < x"
  shows "x < power_int 2 (ilog2 x + 1)"
proof (cases "1 \<le> x")
  case True
  define n where "n = nat \<lfloor>x\<rfloor>"
  have "0 \<le> \<lfloor>x\<rfloor>" using True by simp
  then have "(of_nat n :: rat) = of_int \<lfloor>x\<rfloor>" by (simp add: n_def)
  then have n: "0 < n" "x < of_nat n + 1"
    using True floor_correct [of x] by (simp_all add: n_def)
  have pos: "0 < bit_length n" using bit_length_gt [of 0 n] n(1) by simp
  have "ilog2 x + 1 = int (bit_length n)"
    using True by (simp add: ilog2_def n_def)
  then have "power_int (2 :: rat) (ilog2 x + 1) = of_nat (2 ^ bit_length n)"
    by simp
  moreover have "Suc n \<le> 2 ^ bit_length n"
    using bit_length_upper [of n] by simp
  then have "(of_nat (Suc n) :: rat) \<le> of_nat (2 ^ bit_length n)"
    by (simp only: of_nat_le_iff)
  then have "of_nat n + 1 \<le> (of_nat (2 ^ bit_length n) :: rat)"
    by simp
  ultimately show ?thesis using n(2) by simp
next
  case False
  define c where "c = nat (\<lceil>1 / x\<rceil> - 1)"
  from False assms have "1 < 1 / x" by simp
  then have "of_int 1 < 1 / x" by simp
  then have "1 < \<lceil>1 / x\<rceil>" by (simp only: less_ceiling_iff)
  then have two: "2 \<le> \<lceil>1 / x\<rceil>" by simp
  then have "0 \<le> \<lceil>1 / x\<rceil> - 1" by linarith
  then have cz: "int c = \<lceil>1 / x\<rceil> - 1" unfolding c_def by (rule nat_0_le)
  have cpos: "0 < c" using cz two by linarith
  have pos: "0 < bit_length c" using bit_length_gt [of 0 c] cpos by simp
  have "of_int (\<lceil>1 / x\<rceil> - 1) < 1 / x"
    using ceiling_correct [of "1 / x"] by simp
  moreover have "\<lceil>1 / x\<rceil> - 1 = int c" using cz by simp
  ultimately have "of_nat c < 1 / x" by simp
  moreover have "(of_nat (2 ^ (bit_length c - 1)) :: rat) \<le> of_nat c"
    using bit_length_lower [OF cpos] by (simp only: of_nat_le_iff)
  ultimately have "(of_nat (2 ^ (bit_length c - 1)) :: rat) < 1 / x"
    by (rule le_less_trans [rotated])
  then have lt: "2 ^ (bit_length c - 1) < 1 / x" by simp
  have "ilog2 x + 1 = - int (bit_length c - 1)"
    using False pos by (simp add: ilog2_def c_def)
  then have "power_int (2 :: rat) (ilog2 x + 1) = 1 / 2 ^ (bit_length c - 1)"
    by (simp add: power_int_minus field_simps)
  moreover have "x < 1 / 2 ^ (bit_length c - 1)"
    using lt assms by (simp add: field_simps)
  ultimately show ?thesis by simp
qed

lemma power_int_two_mono: "power_int (2 :: rat) a < power_int 2 b \<Longrightarrow> a < b"
  by (rule ccontr) (simp add: not_less power_int_increasing leD)

lemma ilog2_eq:
  assumes "power_int 2 e \<le> x" "x < power_int 2 (e + 1)"
  shows "ilog2 x = e"
proof -
  have "0 < power_int (2 :: rat) e" by (rule zero_less_power_int) simp
  then have pos: "0 < x" using assms(1) by (rule less_le_trans)
  have "power_int (2 :: rat) (ilog2 x) < power_int 2 (e + 1)"
    using ilog2_lower [OF pos] assms(2) by simp
  then have a: "ilog2 x < e + 1" by (rule power_int_two_mono)
  have "power_int (2 :: rat) e < power_int 2 (ilog2 x + 1)"
    using ilog2_upper [OF pos] assms(1) by simp
  then have "e < ilog2 x + 1" by (rule power_int_two_mono)
  with a show ?thesis by simp
qed

lemma round_half_even_int: "round_half_even (of_int z) = z"
  by (simp add: round_half_even_def Let_def)

lemma round_half_even_near:
  assumes "\<bar>x - of_int m\<bar> < 1 / 2"
  shows "round_half_even x = m"
proof -
  have a: "of_int m - 1 / 2 < x" "x < of_int m + 1 / 2" using assms by linarith+
  consider "\<lfloor>x\<rfloor> = m" | "\<lfloor>x\<rfloor> = m - 1"
  proof -
    have "of_int (m - 1) \<le> x" using a(1) by simp
    then have "m - 1 \<le> \<lfloor>x\<rfloor>" by (simp only: le_floor_iff)
    moreover have "x < of_int (m + 1)" using a(2) by simp
    then have "\<lfloor>x\<rfloor> < m + 1" by (simp only: floor_less_iff)
    ultimately have "\<lfloor>x\<rfloor> = m \<or> \<lfloor>x\<rfloor> = m - 1" by linarith
    then show ?thesis using that by blast
  qed
  then show ?thesis
  proof cases
    case 1
    then show ?thesis using a by (simp add: round_half_even_def Let_def)
  next
    case 2
    then show ?thesis using a by (simp add: round_half_even_def Let_def)
  qed
qed

lemma round_half_even_ge:
  assumes "of_int m \<le> x"
  shows "m \<le> round_half_even x"
proof -
  from assms have "m \<le> \<lfloor>x\<rfloor>" by (simp only: le_floor_iff)
  then show ?thesis by (simp add: round_half_even_def Let_def)
qed

text \<open>What \<open>fl\<close> is on a value whose binary exponent is known.\<close>

lemma fl_eq:
  assumes "power_int 2 (e + 52) \<le> \<bar>x\<bar>" "\<bar>x\<bar> < power_int 2 (e + 53)"
  shows "fl x = of_int (round_half_even (x / power_int 2 e)) * power_int 2 e"
proof -
  have "0 < power_int (2 :: rat) (e + 52)" by (rule zero_less_power_int) simp
  then have "0 < \<bar>x\<bar>" using assms(1) by (rule less_le_trans)
  then have nz: "x \<noteq> 0" by simp
  have "ilog2 \<bar>x\<bar> = e + 52"
    using assms by (intro ilog2_eq) (simp_all add: add.commute add.left_commute)
  then show ?thesis using nz by (simp add: fl_def Let_def)
qed

lemma round_half_even_tie:
  assumes "\<bar>x - of_int m\<bar> = 1 / 2" "even m"
  shows "round_half_even x = m"
proof -
  consider "x = of_int m + 1 / 2" | "x = of_int (m - 1) + 1 / 2"
    using assms(1) by (cases "of_int m \<le> x") (auto simp add: abs_if field_simps)
  then show ?thesis
  proof cases
    case 1
    have "\<lfloor>x\<rfloor> = m" unfolding 1 by (simp add: floor_eq_iff)
    then show ?thesis using 1 assms(2) by (simp add: round_half_even_def Let_def)
  next
    case 2
    have "\<lfloor>x\<rfloor> = m - 1" unfolding 2 by (simp add: floor_eq_iff)
    then show ?thesis using 2 assms(2) by (simp add: round_half_even_def Let_def)
  qed
qed

text \<open>
  A float with a certificate: \<open>fl x\<close> is \<open>m * 2^e\<close> once \<open>x\<close> lies between \<open>2^(e+52)\<close> and
  \<open>2^(e+53)\<close> in magnitude and \<open>m\<close> is the integer nearest to \<open>x / 2^e\<close>, the even one of two.
\<close>

lemma fl_cert:
  assumes "power_int 2 (e + 52) \<le> \<bar>x\<bar>" "\<bar>x\<bar> < power_int 2 (e + 53)"
    and "\<bar>x / power_int 2 e - of_int m\<bar> < 1 / 2 \<or>
         \<bar>x / power_int 2 e - of_int m\<bar> = 1 / 2 \<and> even m"
  shows "fl x = of_int m * power_int 2 e"
proof -
  have "round_half_even (x / power_int 2 e) = m"
    using assms(3) round_half_even_near round_half_even_tie by blast
  then show ?thesis unfolding fl_eq [OF assms(1,2)] by simp
qed

text \<open>A number with at most 53 significant bits is a float: rounding leaves it.\<close>

lemma fl_exact:
  assumes "\<bar>m\<bar> < 2 ^ 53"
  shows "fl (of_int m * power_int 2 j) = of_int m * power_int 2 j"
proof (cases "m = 0")
  case True
  then show ?thesis by (simp add: fl_def)
next
  case False
  let ?x = "(of_int m :: rat) * power_int 2 j"
  have p: "0 < power_int (2 :: rat) j" by (rule zero_less_power_int) simp
  have nz: "?x \<noteq> 0" using False p by simp
  then have pos: "0 < \<bar>?x\<bar>" by simp
  define e where "e = ilog2 \<bar>?x\<bar> - 52"
  have "power_int (2 :: rat) (ilog2 \<bar>?x\<bar>) \<le> \<bar>?x\<bar>" by (rule ilog2_lower [OF pos])
  also have "\<bar>?x\<bar> = of_int \<bar>m\<bar> * power_int 2 j" using p by (simp add: abs_mult)
  also have "\<dots> < of_int (2 ^ 53) * power_int 2 j"
    using assms p by (simp only: mult_strict_right_mono of_int_less_iff)
  also have "\<dots> = power_int 2 (53 + j)" by (simp add: power_int_add)
  finally have "ilog2 \<bar>?x\<bar> < 53 + j" by (rule power_int_two_mono)
  then have ej: "e \<le> j" by (simp add: e_def)
  define k where "k = nat (j - e)"
  have jk: "j = e + int k" using ej by (simp add: k_def)
  have q: "?x / power_int 2 e = of_int (m * 2 ^ k)"
    unfolding jk by (simp add: power_int_add)
  have "fl ?x = of_int (round_half_even (?x / power_int 2 e)) * power_int 2 e"
    using nz by (simp add: fl_def e_def Let_def)
  also have "\<dots> = of_int (m * 2 ^ k) * power_int 2 e"
    unfolding q round_half_even_int ..
  also have "\<dots> = ?x"
    unfolding jk by (simp add: power_int_add)
  finally show ?thesis .
qed

lemma fl_of_int: "\<bar>m\<bar> < 2 ^ 53 \<Longrightarrow> fl (of_int m) = of_int m"
  using fl_exact [of m 0] by simp

lemma fl_half_integer: "\<bar>m\<bar> < 2 ^ 53 \<Longrightarrow> fl (of_int m / 2) = of_int m / 2"
  using fl_exact [of m "- 1"] by simp

lemma fl_half: "fl (1 / 2) = 1 / 2"
  using fl_half_integer [of 1] by simp

lemma fl_three_halves: "fl (3 / 2) = 3 / 2"
  using fl_half_integer [of 3] by simp

lemma fl_0: "fl 0 = 0"
  by (simp add: fl_def)

text \<open>Rounding keeps the sign.\<close>

lemma fl_pos:
  assumes "0 < x"
  shows "0 < fl x"
proof -
  define e where "e = ilog2 \<bar>x\<bar> - 52"
  have p: "0 < power_int (2 :: rat) e" by (rule zero_less_power_int) simp
  have "power_int (2 :: rat) (ilog2 x) \<le> x" by (rule ilog2_lower [OF assms])
  then have "power_int (2 :: rat) (e + 52) \<le> x" using assms by (simp add: e_def)
  then have "power_int 2 e * 2 ^ 52 \<le> x" by (simp add: power_int_add)
  then have "of_int (2 ^ 52) \<le> x / power_int 2 e"
    using p by (simp add: pos_le_divide_eq mult.commute)
  then have "2 ^ 52 \<le> round_half_even (x / power_int 2 e)" by (rule round_half_even_ge)
  moreover have "(0 :: int) < 2 ^ 52" by simp
  ultimately have "0 < round_half_even (x / power_int 2 e)" by (rule less_le_trans [rotated])
  then have "0 < (of_int (round_half_even (x / power_int 2 e)) :: rat) * power_int 2 e"
    using p by simp
  then show ?thesis using assms by (simp add: fl_def e_def Let_def)
qed

text \<open>The float literals of the code that are not floats as written.\<close>

lemma fl_tenth: "fl (1 / 10) = 3602879701896397 / 36028797018963968"
  using fl_cert [of "- 56" "1 / 10" 7205759403792794] by simp

lemma fl_nine_tenths: "fl (9 / 10) = 8106479329266893 / 9007199254740992"
  using fl_cert [of "- 53" "9 / 10" 8106479329266893] by simp

lemma fl_hundredth: "fl (1 / 100) = 5764607523034235 / 576460752303423488"
  using fl_cert [of "- 59" "1 / 100" 5764607523034235] by simp

lemma fl_twentieth: "fl (1 / 20) = 3602879701896397 / 72057594037927936"
  using fl_cert [of "- 57" "1 / 20" 7205759403792794] by simp

lemma fl_two_hundredth: "fl (1 / 200) = 5764607523034235 / 1152921504606846976"
  using fl_cert [of "- 60" "1 / 200" 5764607523034235] by simp

text \<open>
  The floats that the chances of a fresh character take: the crit and the dodge chance,
  and the flee chance of the first and of the third attempt against the Slime.
\<close>

lemma fresh_floats:
  "fl (28823037615171175 / 576460752303423488) = of_int 7205759403792794 * power_int 2 (- 57)"
  "fl (28823037615171175 / 288230376151711744) = of_int 7205759403792794 * power_int 2 (- 56)"
  "fl (3602879701896397 / 36028797018963968) = of_int 7205759403792794 * power_int 2 (- 56)"
  "fl (14411518807585587 / 36028797018963968) = of_int 7205759403792794 * power_int 2 (- 54)"
  "fl (18014398509481985 / 36028797018963968) = of_int 4503599627370496 * power_int 2 (- 53)"
  "fl (10808639105689191 / 36028797018963968) = of_int 5404319552844596 * power_int 2 (- 54)"
  "fl (900719925474099 / 4503599627370496) = of_int 7205759403792792 * power_int 2 (- 55)"
  "fl (10808639105689189 / 36028797018963968) = of_int 5404319552844594 * power_int 2 (- 54)"
  "fl (2702159776422297 / 9007199254740992) = of_int 5404319552844594 * power_int 2 (- 54)"
  by (rule fl_cert; simp)+

text \<open>Rules that evaluate the float operations on the integers and halves of a concrete run.\<close>

lemma floor_rat_numeral:
  "\<lfloor>(numeral a :: rat) / numeral b\<rfloor> = numeral a div numeral b"
  using floor_divide_of_int_eq [of "numeral a" "numeral b", where ?'a = rat] by simp

lemma fl_numeral: "numeral n < (2 :: int) ^ 53 \<Longrightarrow> fl (numeral n) = numeral n"
  using fl_of_int [of "numeral n"] by simp

lemma fl_neg_numeral: "numeral n < (2 :: int) ^ 53 \<Longrightarrow> fl (- numeral n) = - numeral n"
  using fl_of_int [of "- numeral n"] by simp

lemma fl_1: "fl 1 = 1"
  using fl_of_int [of 1] by simp

lemma fl_numeral_half: "numeral n < (2 :: int) ^ 53 \<Longrightarrow> fl (numeral n / 2) = numeral n / 2"
  using fl_half_integer [of "numeral n"] by simp

lemma fl_neg_numeral_half:
  "numeral n < (2 :: int) ^ 53 \<Longrightarrow> fl (- (numeral n / 2)) = - (numeral n / 2)"
  using fl_half_integer [of "- numeral n"] by simp

lemmas float_eval =
  float_of_int_def float_mul_def float_add_def float_sub_def
  fl_0 fl_1 fl_numeral fl_neg_numeral fl_half fl_numeral_half fl_neg_numeral_half
  fl_tenth fl_nine_tenths fl_hundredth fl_twentieth fl_two_hundredth fresh_floats fl_pos

lemma float_of_int_exact: "\<bar>i\<bar> < 2 ^ 53 \<Longrightarrow> float_of_int i = of_int i"
  by (simp add: float_of_int_def fl_of_int)


section \<open>Damage\<close>

lemma half_diff: "(of_int d :: rat) - of_int f * (1 / 2) = of_int (2 * d - f) / of_int 2"
  by (simp add: field_simps)

lemma py_int_half_diff:
  "py_int (of_int d - of_int f * (1 / 2)) =
     (if f \<le> 2 * d then (2 * d - f) div 2 else - ((f - 2 * d) div 2))"
proof -
  have c: "\<lceil>(of_int (2 * d - f) :: rat) / of_int 2\<rceil> = - ((f - 2 * d) div 2)"
    using ceiling_divide_eq_div [of "2 * d - f" 2, where ?'a = rat] by simp
  have f: "\<lfloor>(of_int (2 * d - f) :: rat) / of_int 2\<rfloor> = (2 * d - f) div 2"
    by (simp only: floor_divide_of_int_eq)
  have "(0 \<le> (of_int (2 * d - f) :: rat) / of_int 2) = (0 \<le> (of_int (2 * d - f) :: rat))"
    by (simp add: zero_le_divide_iff)
  also have "\<dots> = (0 \<le> 2 * d - f)"
    by (simp only: of_int_0_le_iff)
  finally have s: "(0 \<le> (of_int (2 * d - f) :: rat) / of_int 2) = (f \<le> 2 * d)"
    by simp
  show ?thesis
    unfolding py_int_def half_diff c f s
    by auto
qed

lemma actual_damage_eq:
  assumes "0 \<le> f" "0 \<le> d"
  shows "max 1 (py_int (of_int d - of_int f * (1 / 2))) = max 1 (d - (f + 1) div 2)"
  unfolding py_int_half_diff using assms by auto

text \<open>
  Below \<open>2^52\<close> the product with \<open>0.5\<close> and the difference of \<open>take_damage\<close> are floats
  as they are, and nothing is rounded.
\<close>

lemma reduced_damage:
  assumes "0 \<le> d" "d < 2 ^ 52" "0 \<le> f" "f < 2 ^ 52"
  shows "float_sub (float_of_int d) (float_mul (float_of_int f) (fl (1 / 2))) =
           of_int d - of_int f * (1 / 2)"
proof -
  have a: "float_of_int d = of_int d" "float_of_int f = of_int f"
    using assms by (simp_all add: float_of_int_exact)
  have "\<bar>f\<bar> < 2 ^ 53" using assms by simp
  then have b: "float_mul (of_int f) (fl (1 / 2)) = of_int f / 2"
    using fl_half_integer [of f] by (simp add: float_mul_def fl_half)
  have "\<bar>2 * d - f\<bar> < 2 ^ 53" using assms by simp
  then have c: "fl (of_int (2 * d - f) / 2) = of_int (2 * d - f) / 2"
    by (rule fl_half_integer)
  have e: "(of_int d :: rat) - of_int f / 2 = of_int (2 * d - f) / 2"
    by (simp add: field_simps)
  show ?thesis
    unfolding a b float_sub_def e c by simp
qed

lemma take_damage_fst:
  "fst (take_damage c d) =
     max 1 (py_int (float_sub (float_of_int d)
                      (float_mul (float_of_int (get_stat c ''defense'')) (fl (1 / 2)))))"
  by (simp add: take_damage_def Let_def)

lemma take_damage_hp:
  "hp (base_stats (snd (take_damage c d))) = max 0 (hp (base_stats c) - fst (take_damage c d))"
proof -
  define a where "a = max 1 (py_int (float_sub (float_of_int d)
                      (float_mul (float_of_int (get_stat c ''defense'')) (fl (1 / 2)))))"
  have "take_damage c d =
          (a, if hp (base_stats c) - a \<le> 0
              then (set_hp (set_hp c (hp (base_stats c) - a)) 0)\<lparr>is_alive := False\<rparr>
              else set_hp c (hp (base_stats c) - a))"
    by (simp add: take_damage_def Let_def set_hp_def a_def)
  then show ?thesis by (simp add: set_hp_def)
qed

lemma take_damage_alive:
  "is_alive (snd (take_damage c d)) =
     (if hp (base_stats (snd (take_damage c d))) = 0 then False else is_alive c)"
  by (simp add: take_damage_def Let_def set_hp_def)

lemma enemy_take_damage_fst:
  "fst (enemy_take_damage e d) =
     max 1 (py_int (float_sub (float_of_int d)
                      (float_mul (float_of_int (enemy_defense e)) (fl (1 / 2)))))"
  by (simp add: enemy_take_damage_def Let_def)

lemma enemy_take_damage_hp:
  "enemy_hp (snd (enemy_take_damage e d)) = max 0 (enemy_hp e - fst (enemy_take_damage e d))"
  by (simp add: enemy_take_damage_def Let_def)

text \<open>
  Claim C1, as the code has it. For a raw damage \<open>d\<close> and a defense \<open>f\<close> with
  \<open>0 \<le> d < 2^52\<close> and \<open>0 \<le> f < 2^52\<close>, \<open>take_damage\<close> of the character and of the enemy
  returns \<open>max(1, int(d - f * 0.5))\<close>, which is \<open>max(1, d - ceil(f / 2))\<close>: the reduction
  is not floored before it is subtracted. The damage returned is at least 1, the new hp is
  \<open>max(0, hp - damage)\<close>, and the character's alive flag becomes false exactly when its new
  hp is 0.
\<close>
theorem take_damage_actual:
  assumes "0 \<le> d" "d < 2 ^ 52"
    and "0 \<le> get_stat c ''defense''" "get_stat c ''defense'' < 2 ^ 52"
    and "0 \<le> enemy_defense e" "enemy_defense e < 2 ^ 52"
  shows "fst (take_damage c d) = max 1 (d - (get_stat c ''defense'' + 1) div 2) \<and>
         1 \<le> fst (take_damage c d) \<and>
         hp (base_stats (snd (take_damage c d))) = max 0 (hp (base_stats c) - fst (take_damage c d)) \<and>
         is_alive (snd (take_damage c d)) =
           (if hp (base_stats (snd (take_damage c d))) = 0 then False else is_alive c) \<and>
         fst (enemy_take_damage e d) = max 1 (d - (enemy_defense e + 1) div 2) \<and>
         1 \<le> fst (enemy_take_damage e d) \<and>
         enemy_hp (snd (enemy_take_damage e d)) = max 0 (enemy_hp e - fst (enemy_take_damage e d))"
proof -
  have a: "fst (take_damage c d) = max 1 (d - (get_stat c ''defense'' + 1) div 2)"
    unfolding take_damage_fst reduced_damage [OF assms(1,2,3,4)]
    using actual_damage_eq [OF assms(3,1)] .
  have b: "fst (enemy_take_damage e d) = max 1 (d - (enemy_defense e + 1) div 2)"
    unfolding enemy_take_damage_fst reduced_damage [OF assms(1,2,5,6)]
    using actual_damage_eq [OF assms(5,1)] .
  have c: "1 \<le> fst (take_damage c d)" by (simp add: take_damage_fst)
  have d: "1 \<le> fst (enemy_take_damage e d)" by (simp add: enemy_take_damage_fst)
  show ?thesis
    using a b c d take_damage_hp [of c d] take_damage_alive [of c d] enemy_take_damage_hp [of e d]
    by blast
qed

text \<open>
  The formula of the specification floors the reduction first. The Goblin has defense 5:
  hit for 20 it takes 17, and the formula says 18.
\<close>
theorem take_damage_floor_counterexample:
  "fst (enemy_take_damage goblin 20) \<noteq> spec_actual_damage (enemy_defense goblin) 20"
  by (simp add: enemy_take_damage_def goblin_def Enemy_init_def spec_actual_damage_def Let_def
      float_eval py_int_def floor_rat_numeral)

text \<open>A fresh character (defense 10) and the Goblin, both hit for 20.\<close>
theorem take_damage_actual_witness:
  "(0::int) \<le> 20 \<and> (20::int) < 2 ^ 52 \<and>
   0 \<le> get_stat (Character_init ''Hero'') ''defense'' \<and>
   get_stat (Character_init ''Hero'') ''defense'' < 2 ^ 52 \<and>
   0 \<le> enemy_defense goblin \<and> enemy_defense goblin < 2 ^ 52 \<and>
   fst (take_damage (Character_init ''Hero'') 20) = 15 \<and>
   fst (enemy_take_damage goblin 20) = 17 \<and>
   hp (base_stats (snd (take_damage (Character_init ''Hero'') 20))) = 85 \<and>
   is_alive (snd (take_damage (Character_init ''Hero'') 20)) \<and>
   enemy_hp (snd (enemy_take_damage goblin 20)) = 33"
proof -
  have h: "(0::int) \<le> 20" "(20::int) < 2 ^ 52" by simp_all
  have g: "get_stat (Character_init ''Hero'') ''defense'' = 10"
    by (simp add: get_stat_def Character_init_def base_get_def bonus_get_def)
  have g': "0 \<le> get_stat (Character_init ''Hero'') ''defense''"
    "get_stat (Character_init ''Hero'') ''defense'' < 2 ^ 52"
    unfolding g by simp_all
  have k: "enemy_defense goblin = 5" "enemy_hp goblin = 50"
    by (simp_all add: goblin_def Enemy_init_def)
  have k': "0 \<le> enemy_defense goblin" "enemy_defense goblin < 2 ^ 52"
    unfolding k by simp_all
  have i: "hp (base_stats (Character_init ''Hero'')) = 100" "is_alive (Character_init ''Hero'')"
    by (simp_all add: Character_init_def)
  show ?thesis
    using take_damage_actual [OF h g' k']
    by (simp add: g k i)
qed


section \<open>Levelling and stat points\<close>











lemma base_get_base_add_same:
  "base_get (base_add d k v) k = map_option (\<lambda>x. x + v) (base_get d k)"
  by (simp add: base_get_def base_add_def)

lemma base_get_base_add_other:
  "k' \<noteq> k \<Longrightarrow> base_get (base_add d k v) k' = base_get d k'"
  by (auto simp add: base_get_def base_add_def)

lemma allocate_stat_fail:
  "base_get (base_stats c) stat_name = None \<or> stat_name = ''hp'' \<or> points > stat_points c
     \<Longrightarrow> allocate_stat c stat_name points = (False, c)"
  by (auto simp add: allocate_stat_def)

lemma allocate_stat_ok:
  "base_get (base_stats c) stat_name \<noteq> None \<Longrightarrow> stat_name \<noteq> ''hp'' \<Longrightarrow> points \<le> stat_points c
     \<Longrightarrow> allocate_stat c stat_name points =
            (True,
             if stat_name = ''max_hp''
             then c\<lparr>base_stats := (base_stats c)\<lparr>max_hp := max_hp (base_stats c) + 5 * points,
                                                  hp := hp (base_stats c) + 5 * points\<rparr>,
                    stat_points := stat_points c - points\<rparr>
             else c\<lparr>base_stats := base_add (base_stats c) stat_name points,
                    stat_points := stat_points c - points\<rparr>)"
  by (simp add: allocate_stat_def Let_def mult.commute)


text \<open>
  Claim C9. \<open>allocate_stat\<close> returns false and the character as it was when the name is not
  a key of the base stats, when it is \<open>hp\<close>, or when the points exceed the pool; no branch
  raises. Otherwise it returns true, the pool loses the points, and \<open>max_hp\<close> and \<open>hp\<close>
  both gain five times the points when the stat is \<open>max_hp\<close>, while any other stat gains
  the points and no other base stat changes.
\<close>
theorem allocate_stat_spec:
  "((base_get (base_stats c) stat_name = None \<or> stat_name = ''hp'' \<or> points > stat_points c)
      \<longrightarrow> allocate_stat c stat_name points = (False, c)) \<and>
   (base_get (base_stats c) stat_name \<noteq> None \<and> stat_name \<noteq> ''hp'' \<and> points \<le> stat_points c
      \<longrightarrow> allocate_stat c stat_name points =
            (True,
             if stat_name = ''max_hp''
             then c\<lparr>base_stats := (base_stats c)\<lparr>max_hp := max_hp (base_stats c) + 5 * points,
                                                  hp := hp (base_stats c) + 5 * points\<rparr>,
                    stat_points := stat_points c - points\<rparr>
             else c\<lparr>base_stats := base_add (base_stats c) stat_name points,
                    stat_points := stat_points c - points\<rparr>)) \<and>
   base_get (base_add (base_stats c) stat_name points) stat_name =
     map_option (\<lambda>v. v + 1 * points) (base_get (base_stats c) stat_name) \<and>
   (\<forall>k. k \<noteq> stat_name \<longrightarrow>
      base_get (base_add (base_stats c) stat_name points) k = base_get (base_stats c) k)"
  using allocate_stat_fail [of c stat_name points] allocate_stat_ok [of c stat_name points]
    base_get_base_add_same [of "base_stats c" stat_name points]
    base_get_base_add_other [of _ stat_name "base_stats c" points]
  by (simp only: mult_1) blast

text \<open>A fresh character with its five points: the three refusals, and two allocations.\<close>
theorem allocate_stat_spec_witness:
  "allocate_stat (Character_init ''Hero'') ''mana'' 1 = (False, Character_init ''Hero'') \<and>
   allocate_stat (Character_init ''Hero'') ''hp'' 1 = (False, Character_init ''Hero'') \<and>
   allocate_stat (Character_init ''Hero'') ''strength'' 6 = (False, Character_init ''Hero'') \<and>
   fst (allocate_stat (Character_init ''Hero'') ''max_hp'' 2) \<and>
   hp (base_stats (snd (allocate_stat (Character_init ''Hero'') ''max_hp'' 2))) = 110 \<and>
   max_hp (base_stats (snd (allocate_stat (Character_init ''Hero'') ''max_hp'' 2))) = 110 \<and>
   stat_points (snd (allocate_stat (Character_init ''Hero'') ''max_hp'' 2)) = 3 \<and>
   strength (base_stats (snd (allocate_stat (Character_init ''Hero'') ''strength'' 3))) = 13 \<and>
   base_get (base_add (base_stats (Character_init ''Hero'')) ''strength'' 3) ''luck'' = Some 10"
  using allocate_stat_spec [of "Character_init ''Hero''" "''mana''" 1]
    allocate_stat_spec [of "Character_init ''Hero''" "''hp''" 1]
    allocate_stat_spec [of "Character_init ''Hero''" "''strength''" 6]
    allocate_stat_spec [of "Character_init ''Hero''" "''max_hp''" 2]
    allocate_stat_spec [of "Character_init ''Hero''" "''strength''" 3]
  by (simp add: Character_init_def base_get_def base_add_def)


section \<open>Fleeing and finished sessions\<close>

lemma clamp_bounds: "(a::rat) \<le> b \<Longrightarrow> a \<le> max a (min b x) \<and> max a (min b x) \<le> b"
  by auto

lemma flee_chance_bounds: "fl (1 / 10) \<le> flee_chance s \<and> flee_chance s \<le> fl (9 / 10)"
  unfolding flee_chance_def Let_def by (rule clamp_bounds) (simp add: fl_tenth fl_nine_tenths)

lemma flee_chance_formula:
  assumes "\<bar>flee_attempts s\<bar> < 2 ^ 53" "\<bar>get_stat (character s) ''agility''\<bar> < 2 ^ 53"
    "\<bar>enemy_level (enemy s) - level (character s)\<bar> < 2 ^ 53"
  shows "flee_chance s =
     max (fl (1 / 10)) (min (fl (9 / 10))
       (float_sub
          (float_add
             (float_sub (1 / 2) (float_mul (of_int (flee_attempts s)) (fl (1 / 10))))
             (float_mul (of_int (get_stat (character s) ''agility'')) (fl (1 / 100))))
          (float_mul (of_int (enemy_level (enemy s) - level (character s))) (fl (5 / 100)))))"
  unfolding flee_chance_def Let_def float_of_int_exact [OF assms(1)]
    float_of_int_exact [OF assms(2)] float_of_int_exact [OF assms(3)] fl_half ..

text \<open>
  Claim C2, as the code has it, for a counter, an agility and a level difference below
  \<open>2^53\<close> in magnitude. \<open>attempt_flee\<close> increments the counter before it computes the chance,
  so the first attempt uses 1. The chance is the formula on the incremented counter with
  every literal, product, sum and difference rounded to binary64, clamped between the floats
  \<open>0.1\<close> and \<open>0.9\<close>, which both lie above the tenths that they stand for. A draw below the
  chance succeeds and sets the result to \<open>FLED\<close>; any other draw fails and leaves the result.
\<close>
theorem attempt_flee_spec:
  assumes "\<bar>flee_attempts s + 1\<bar> < 2 ^ 53" "\<bar>get_stat (character s) ''agility''\<bar> < 2 ^ 53"
    "\<bar>enemy_level (enemy s) - level (character s)\<bar> < 2 ^ 53"
  shows
  "flee_attempts (snd (attempt_flee s r)) = flee_attempts s + 1 \<and>
   flee_chance (s\<lparr>flee_attempts := flee_attempts s + 1\<rparr>) =
     max (fl (1 / 10)) (min (fl (9 / 10))
       (float_sub
          (float_add
             (float_sub (1 / 2) (float_mul (of_int (flee_attempts s + 1)) (fl (1 / 10))))
             (float_mul (of_int (get_stat (character s) ''agility'')) (fl (1 / 100))))
          (float_mul (of_int (enemy_level (enemy s) - level (character s))) (fl (5 / 100))))) \<and>
   fl (1 / 10) = 3602879701896397 / 36028797018963968 \<and>
   fl (9 / 10) = 8106479329266893 / 9007199254740992 \<and>
   fl (1 / 10) \<le> flee_chance (s\<lparr>flee_attempts := flee_attempts s + 1\<rparr>) \<and>
   flee_chance (s\<lparr>flee_attempts := flee_attempts s + 1\<rparr>) \<le> fl (9 / 10) \<and>
   (flee_draw r < flee_chance (s\<lparr>flee_attempts := flee_attempts s + 1\<rparr>) \<longrightarrow>
      fst (fst (attempt_flee s r)) \<and> result (snd (attempt_flee s r)) = FLED) \<and>
   (\<not> flee_draw r < flee_chance (s\<lparr>flee_attempts := flee_attempts s + 1\<rparr>) \<longrightarrow>
      \<not> fst (fst (attempt_flee s r)) \<and> result (snd (attempt_flee s r)) = result s)"
proof -
  let ?s1 = "s\<lparr>flee_attempts := flee_attempts s + 1\<rparr>"
  have a: "flee_attempts (snd (attempt_flee s r)) = flee_attempts s + 1"
    by (simp add: attempt_flee_def Let_def log_def)
  have b: "flee_draw r < flee_chance ?s1 \<longrightarrow>
      fst (fst (attempt_flee s r)) \<and> result (snd (attempt_flee s r)) = FLED"
    by (simp add: attempt_flee_def Let_def log_def)
  have c: "\<not> flee_draw r < flee_chance ?s1 \<longrightarrow>
      \<not> fst (fst (attempt_flee s r)) \<and> result (snd (attempt_flee s r)) = result s"
    by (simp add: attempt_flee_def Let_def log_def)
  have d: "flee_chance ?s1 =
     max (fl (1 / 10)) (min (fl (9 / 10))
       (float_sub
          (float_add
             (float_sub (1 / 2) (float_mul (of_int (flee_attempts s + 1)) (fl (1 / 10))))
             (float_mul (of_int (get_stat (character s) ''agility'')) (fl (1 / 100))))
          (float_mul (of_int (enemy_level (enemy s) - level (character s))) (fl (5 / 100)))))"
    using flee_chance_formula [of ?s1] assms by simp
  show ?thesis
    using a b c d flee_chance_bounds [of ?s1] fl_tenth fl_nine_tenths by blast
qed

text \<open>
  The third attempt of a fresh character against the Slime. The formula of the
  specification gives three tenths; the code computes \<open>0.29999999999999993\<close>, and a draw
  of that value, which is below three tenths, does not flee.
\<close>
theorem flee_chance_rounding_counterexample:
  "flee_attempts twice_failed + 1 = 3 \<and>
   spec_flee_chance 3 (get_stat (character twice_failed) ''agility'')
     (enemy_level (enemy twice_failed)) (level (character twice_failed)) = 3 / 10 \<and>
   flee_chance (twice_failed\<lparr>flee_attempts := 3\<rparr>) = 2702159776422297 / 9007199254740992 \<and>
   flee_draw near_rolls < 3 / 10 \<and>
   \<not> fst (fst (attempt_flee twice_failed near_rolls)) \<and>
   result (snd (attempt_flee twice_failed near_rolls)) = ONGOING"
proof -
  have a: "flee_attempts twice_failed + 1 = 3"
    by (simp add: twice_failed_def)
  have b: "spec_flee_chance 3 (get_stat (character twice_failed) ''agility'')
     (enemy_level (enemy twice_failed)) (level (character twice_failed)) = 3 / 10"
    by (simp add: spec_flee_chance_def twice_failed_def Combat_init_def hero_def Character_init_def
        slime_def Enemy_init_def get_stat_def base_get_def bonus_get_def)
  have c: "flee_chance (twice_failed\<lparr>flee_attempts := 3\<rparr>) = 2702159776422297 / 9007199254740992"
    by (simp add: twice_failed_def flee_chance_def Let_def Combat_init_def hero_def Character_init_def slime_def Enemy_init_def
        get_stat_def base_get_def bonus_get_def float_eval)
  have d: "flee_draw near_rolls = 2702159776422297 / 9007199254740992"
    by (simp add: near_rolls_def)
  have e: "attempt_flee twice_failed near_rolls =
             (if flee_draw near_rolls < flee_chance (twice_failed\<lparr>flee_attempts := 3\<rparr>)
              then ((True, ''You escaped!''),
                    log (twice_failed\<lparr>flee_attempts := 3, result := FLED\<rparr>)
                      ''You successfully fled from combat!'')
              else ((False, ''Couldn'' @ [CHR 0x27] @ ''t escape!''),
                    log (twice_failed\<lparr>flee_attempts := 3\<rparr>) ''Failed to flee!''))"
    using a by (simp add: attempt_flee_def Let_def)
  have f: "result twice_failed = ONGOING"
    by (simp add: twice_failed_def Combat_init_def)
  show ?thesis
    unfolding e c d using a b c f by (simp add: log_def)
qed

text \<open>The first attempt of a fresh character against the Slime: the chance is one half.\<close>
theorem attempt_flee_spec_witness:
  "\<bar>flee_attempts (Combat_init hero slime) + 1\<bar> < 2 ^ 53 \<and>
   \<bar>get_stat (character (Combat_init hero slime)) ''agility''\<bar> < 2 ^ 53 \<and>
   \<bar>enemy_level (enemy (Combat_init hero slime)) - level (character (Combat_init hero slime))\<bar> < 2 ^ 53 \<and>
   flee_attempts (snd (attempt_flee (Combat_init hero slime) low_rolls)) = 1 \<and>
   flee_draw low_rolls
     < flee_chance ((Combat_init hero slime)\<lparr>flee_attempts := flee_attempts (Combat_init hero slime) + 1\<rparr>) \<and>
   result (snd (attempt_flee (Combat_init hero slime) low_rolls)) = FLED \<and>
   \<not> flee_draw high_rolls
     < flee_chance ((Combat_init hero slime)\<lparr>flee_attempts := flee_attempts (Combat_init hero slime) + 1\<rparr>) \<and>
   result (snd (attempt_flee (Combat_init hero slime) high_rolls)) = result (Combat_init hero slime) \<and>
   flee_chance ((Combat_init hero slime)\<lparr>flee_attempts := flee_attempts (Combat_init hero slime) + 1\<rparr>) = 1 / 2"
proof -
  let ?s = "Combat_init hero slime"
  have h: "\<bar>flee_attempts ?s + 1\<bar> < 2 ^ 53" "\<bar>get_stat (character ?s) ''agility''\<bar> < 2 ^ 53"
    "\<bar>enemy_level (enemy ?s) - level (character ?s)\<bar> < 2 ^ 53"
    by (simp_all add: Combat_init_def hero_def Character_init_def slime_def Enemy_init_def
        get_stat_def base_get_def bonus_get_def)
  have n: "flee_attempts ?s + 1 = 1"
    by (simp add: Combat_init_def)
  have e: "flee_chance (?s\<lparr>flee_attempts := flee_attempts ?s + 1\<rparr>) = 1 / 2"
    by (simp add: flee_chance_def Let_def Combat_init_def hero_def Character_init_def slime_def Enemy_init_def
        get_stat_def base_get_def bonus_get_def float_eval)
  have l: "flee_draw low_rolls < 1 / 2" "\<not> flee_draw high_rolls < 1 / 2"
    by (simp_all add: low_rolls_def high_rolls_def)
  show ?thesis
    using attempt_flee_spec [OF h, of low_rolls] attempt_flee_spec [OF h, of high_rolls] l h n
    unfolding e
    by simp
qed

text \<open>The definitions and rules that evaluate a concrete turn.\<close>

lemmas eval_defs =
  execute_turn_def get_turn_order_def enemy_turn_def player_turn_def enemy_attack_def
  player_attack_def player_defend_def player_use_item_def attempt_flee_def flee_chance_def
  get_dodge_chance_def get_crit_chance_def get_attack_damage_def enemy_get_attack_damage_def
  enemy_take_damage_def enemy_is_alive_def take_damage_def is_dead_def set_hp_def crit_damage_def
  get_stat_def base_get_def bonus_get_def log_def py_int_def Let_def
  Combat_init_def hero_def weak_hero_def Character_init_def slime_def weak_slime_def Enemy_init_def
  low_rolls_def high_rolls_def mixed_rolls_def
  str_int_def str_nat.simps digit_char_def
  float_eval floor_rat_numeral

text \<open>
  Claim C10. On a session whose result is \<open>VICTORY\<close>, \<open>DEFEAT\<close> or \<open>FLED\<close>, \<open>execute_turn\<close>
  returns no message and changes nothing but \<open>turn_count\<close>, which grows by 1.
\<close>
theorem execute_turn_terminal:
  "result s \<noteq> ONGOING \<Longrightarrow>
     execute_turn s player_action it r = ([], s\<lparr>turn_count := turn_count s + 1\<rparr>)"
  by (simp add: execute_turn_def get_turn_order_def Let_def)

text \<open>A session that is already won.\<close>
theorem execute_turn_terminal_witness:
  "result ((Combat_init hero slime)\<lparr>result := VICTORY\<rparr>) \<noteq> ONGOING \<and>
   execute_turn ((Combat_init hero slime)\<lparr>result := VICTORY\<rparr>) ATTACK None low_rolls =
     ([], (Combat_init hero slime)\<lparr>result := VICTORY, turn_count := 1\<rparr>)"
proof -
  have h: "result ((Combat_init hero slime)\<lparr>result := VICTORY\<rparr>) \<noteq> ONGOING" by simp
  show ?thesis
    using execute_turn_terminal [OF h, of ATTACK None low_rolls] h
    by (simp add: Combat_init_def)
qed


section \<open>The session over a sequence of turns\<close>

lemma execute_turns_Nil: "execute_turns s [] = s"
  by (simp add: execute_turns_def)

lemma execute_turns_Cons:
  "execute_turns s ((a, it, r) # ts) = execute_turns (snd (execute_turn s a it r)) ts"
  by (simp add: execute_turns_def)

lemma execute_turns_append:
  "execute_turns s (ts @ us) = execute_turns (execute_turns s ts) us"
  by (simp add: execute_turns_def)

text \<open>What the pieces of a turn leave of the three fields.\<close>

lemma player_attack_frame:
  "result (snd (player_attack s r)) = result s \<and>
   flee_attempts (snd (player_attack s r)) = flee_attempts s \<and>
   turn_count (snd (player_attack s r)) = turn_count s"
  by (simp add: player_attack_def Let_def log_def split: prod.splits)

lemma player_defend_frame:
  "result (snd (player_defend s)) = result s \<and>
   flee_attempts (snd (player_defend s)) = flee_attempts s \<and>
   turn_count (snd (player_defend s)) = turn_count s"
  by (simp add: player_defend_def log_def)

lemma player_use_item_frame:
  "result (snd (player_use_item s it)) = result s \<and>
   flee_attempts (snd (player_use_item s it)) = flee_attempts s \<and>
   turn_count (snd (player_use_item s it)) = turn_count s"
  by (simp add: player_use_item_def Let_def log_def split: option.splits item.splits prod.splits)

lemma attempt_flee_frame:
  "(result (snd (attempt_flee s r)) = result s \<or> result (snd (attempt_flee s r)) = FLED) \<and>
   flee_attempts (snd (attempt_flee s r)) = flee_attempts s + 1 \<and>
   turn_count (snd (attempt_flee s r)) = turn_count s"
  by (simp add: attempt_flee_def Let_def log_def)

lemma enemy_attack_frame:
  "result (snd (enemy_attack s r)) = result s \<and>
   flee_attempts (snd (enemy_attack s r)) = flee_attempts s \<and>
   turn_count (snd (enemy_attack s r)) = turn_count s"
  by (simp add: enemy_attack_def Let_def log_def split: prod.splits)

lemma player_turn_frame:
  assumes "player_turn pa it r msgs s = (ctl, msgs', s')"
  shows "flee_attempts s \<le> flee_attempts s' \<and> turn_count s' = turn_count s"
  using assms player_attack_frame [of s r] player_defend_frame [of s]
    player_use_item_frame [of s it] attempt_flee_frame [of s r]
  by (cases pa) (auto simp add: player_turn_def Let_def split: prod.splits if_splits)

lemma enemy_turn_frame:
  assumes "enemy_turn r msgs s = (ctl, msgs', s')"
  shows "flee_attempts s \<le> flee_attempts s' \<and> turn_count s' = turn_count s"
  using assms enemy_attack_frame [of s r]
  by (auto simp add: enemy_turn_def Let_def split: prod.splits if_splits)

lemma turn_loop_frame:
  "turn_loop actors pa it r msgs s = (msgs', s') \<Longrightarrow>
     flee_attempts s \<le> flee_attempts s' \<and> turn_count s' = turn_count s \<and>
     (result s \<noteq> ONGOING \<longrightarrow> result s' = result s)"
proof (induction actors arbitrary: msgs s)
  case Nil
  then show ?case by simp
next
  case (Cons actor rest)
  show ?case
  proof (cases "result s = ONGOING")
    case False
    with Cons.prems show ?thesis by simp
  next
    case True
    obtain ctl m1 s1 where step:
      "(if actor = ''player'' then player_turn pa it r msgs s else enemy_turn r msgs s) = (ctl, m1, s1)"
      by (metis prod_cases3)
    have fr: "flee_attempts s \<le> flee_attempts s1 \<and> turn_count s1 = turn_count s"
      using step player_turn_frame enemy_turn_frame by (metis (full_types))
    show ?thesis
    proof (cases ctl)
      case Continue
      with Cons.prems True step have "turn_loop rest pa it r m1 s1 = (msgs', s')" by simp
      from Cons.IH [OF this] fr True show ?thesis by simp
    next
      case Break
      with Cons.prems True step have "s' = s1" by simp
      with fr True show ?thesis by simp
    next
      case Return
      with Cons.prems True step have "s' = s1" by simp
      with fr True show ?thesis by simp
    qed
  qed
qed

lemma execute_turn_frame:
  "flee_attempts s \<le> flee_attempts (snd (execute_turn s pa it r)) \<and>
   turn_count (snd (execute_turn s pa it r)) = turn_count s + 1 \<and>
   (result s \<noteq> ONGOING \<longrightarrow> result (snd (execute_turn s pa it r)) = result s)"
proof -
  let ?s1 = "s\<lparr>turn_count := turn_count s + 1\<rparr>"
  obtain m s' where e: "turn_loop (get_turn_order ?s1 r) pa it r [] ?s1 = (m, s')"
    by (metis surj_pair)
  from turn_loop_frame [OF e] e show ?thesis
    by (simp add: execute_turn_def Let_def)
qed

lemma execute_turns_frame:
  "flee_attempts s \<le> flee_attempts (execute_turns s ts) \<and>
   turn_count (execute_turns s ts) = turn_count s + int (length ts) \<and>
   (result s \<noteq> ONGOING \<longrightarrow> result (execute_turns s ts) = result s)"
proof (induction ts arbitrary: s)
  case Nil
  show ?case by (simp add: execute_turns_Nil)
next
  case (Cons t ts)
  obtain a it r where t: "t = (a, it, r)" by (metis prod_cases3)
  from Cons.IH [of "snd (execute_turn s a it r)"] execute_turn_frame [of s a it r]
  show ?case unfolding t execute_turns_Cons by auto
qed


text \<open>
  Claim C5. Over every sequence of calls of \<open>execute_turn\<close>, with any actions, items and
  draws: \<open>turn_count\<close> of a session that \<open>Combat_init\<close> made is never negative and never
  decreases, \<open>flee_attempts\<close> never decreases, a new session is \<open>ONGOING\<close>, and once the
  result is one of \<open>VICTORY\<close>, \<open>DEFEAT\<close> and \<open>FLED\<close> every later call leaves it.
\<close>
theorem session_monotonic:
  "0 \<le> turn_count (execute_turns (Combat_init c e) ts) \<and>
   turn_count (execute_turns s ts) \<le> turn_count (execute_turns s (ts @ us)) \<and>
   flee_attempts (execute_turns s ts) \<le> flee_attempts (execute_turns s (ts @ us)) \<and>
   result (Combat_init c e) = ONGOING \<and>
   (result (execute_turns s ts) \<noteq> ONGOING \<longrightarrow>
      result (execute_turns s ts) \<in> {VICTORY, DEFEAT, FLED} \<and>
      result (execute_turns s (ts @ us)) = result (execute_turns s ts))"
proof -
  have a: "0 \<le> turn_count (execute_turns (Combat_init c e) ts)"
    using execute_turns_frame [of "Combat_init c e" ts] by (simp add: Combat_init_def)
  have b: "result (execute_turns s ts) \<noteq> ONGOING \<longrightarrow>
      result (execute_turns s ts) \<in> {VICTORY, DEFEAT, FLED}"
    by (cases "result (execute_turns s ts)") simp_all
  have c: "result (Combat_init c e) = ONGOING" by (simp add: Combat_init_def)
  show ?thesis
    using a b c execute_turns_frame [of "execute_turns s ts" us]
    unfolding execute_turns_append by simp
qed

text \<open>A flight that succeeds, and an attack after it.\<close>
theorem session_monotonic_witness:
  "result (execute_turns (Combat_init hero slime) [(FLEE, None, low_rolls)]) \<noteq> ONGOING \<and>
   result (execute_turns (Combat_init hero slime) ([(FLEE, None, low_rolls)] @ [(ATTACK, None, low_rolls)])) = FLED"
proof -
  have h: "result (execute_turns (Combat_init hero slime) [(FLEE, None, low_rolls)]) = FLED"
    by (simp add: execute_turns_def eval_defs)
  show ?thesis
    using session_monotonic [of hero slime "[(FLEE, None, low_rolls)]" "Combat_init hero slime" "[(ATTACK, None, low_rolls)]"]
    unfolding h by simp
qed

section \<open>Early exits of a turn\<close>

lemma player_turn_ATTACK:
  "player_turn ATTACK it r msgs s =
     (if \<not> enemy_is_alive (enemy (snd (player_attack s r)))
      then (Break, msgs @ [fst (player_attack s r)], (snd (player_attack s r))\<lparr>result := VICTORY\<rparr>)
      else (Continue, msgs @ [fst (player_attack s r)], snd (player_attack s r)))"
  by (simp add: player_turn_def split_beta)

lemma player_turn_DEFEND:
  "player_turn DEFEND it r msgs s =
     (if \<not> enemy_is_alive (enemy (snd (player_defend s)))
      then (Break, msgs @ [fst (player_defend s)], (snd (player_defend s))\<lparr>result := VICTORY\<rparr>)
      else (Continue, msgs @ [fst (player_defend s)], snd (player_defend s)))"
  by (simp add: player_turn_def split_beta)

lemma player_turn_USE_ITEM:
  "player_turn USE_ITEM it r msgs s =
     (if \<not> fst (fst (player_use_item s it))
      then (Return, msgs @ [snd (fst (player_use_item s it))], snd (player_use_item s it))
      else if \<not> enemy_is_alive (enemy (snd (player_use_item s it)))
      then (Break, msgs @ [snd (fst (player_use_item s it))],
            (snd (player_use_item s it))\<lparr>result := VICTORY\<rparr>)
      else (Continue, msgs @ [snd (fst (player_use_item s it))], snd (player_use_item s it)))"
  by (simp add: player_turn_def split_beta)

lemma player_turn_FLEE:
  "player_turn FLEE it r msgs s =
     (if fst (fst (attempt_flee s r))
      then (Return, msgs @ [snd (fst (attempt_flee s r))], snd (attempt_flee s r))
      else if \<not> enemy_is_alive (enemy (snd (attempt_flee s r)))
      then (Break, msgs @ [snd (fst (attempt_flee s r))],
            (snd (attempt_flee s r))\<lparr>result := VICTORY\<rparr>)
      else (Continue, msgs @ [snd (fst (attempt_flee s r))], snd (attempt_flee s r)))"
  by (simp add: player_turn_def split_beta)

lemma attempt_flee_result:
  "result (snd (attempt_flee s r)) = (if fst (fst (attempt_flee s r)) then FLED else result s)"
  by (simp add: attempt_flee_def Let_def log_def)

lemma enemy_turn_eq:
  "enemy_turn r msgs s =
     (if is_dead (character (snd (enemy_attack s r)))
      then (Break, msgs @ [fst (enemy_attack s r)], (snd (enemy_attack s r))\<lparr>result := DEFEAT\<rparr>)
      else (Continue, msgs @ [fst (enemy_attack s r)], snd (enemy_attack s r)))"
  by (simp add: enemy_turn_def Let_def split_beta)

lemma player_turn_continue_ongoing:
  assumes "player_turn pa it r msgs s = (Continue, m, s')" "result s = ONGOING"
  shows "result s' = ONGOING"
proof (cases pa)
  case ATTACK
  with assms player_attack_frame [of s r] show ?thesis
    by (simp add: player_turn_ATTACK split: if_splits)
next
  case DEFEND
  with assms player_defend_frame [of s] show ?thesis
    by (simp add: player_turn_DEFEND split: if_splits)
next
  case USE_ITEM
  with assms player_use_item_frame [of s it] show ?thesis
    by (simp add: player_turn_USE_ITEM split: if_splits)
next
  case FLEE
  with assms attempt_flee_result [of s r] show ?thesis
    by (simp add: player_turn_FLEE split: if_splits)
qed


lemma turn_loop_player_first:
  assumes "result s = ONGOING"
  shows "turn_loop [''player'', ''enemy''] pa it r [] s =
           (case player_turn pa it r [] s of
              (Continue, m, s2) \<Rightarrow> (case enemy_turn r m s2 of (ctl, m', s3) \<Rightarrow> (m', s3))
            | (ctl, m, s2) \<Rightarrow> (m, s2))"
proof -
  obtain ctl m s2 where p: "player_turn pa it r [] s = (ctl, m, s2)" by (metis prod_cases3)
  show ?thesis
  proof (cases ctl)
    case Continue
    with p assms have o: "result s2 = ONGOING" using player_turn_continue_ongoing by blast
    obtain c2 m' s3 where e: "enemy_turn r m s2 = (c2, m', s3)" by (metis prod_cases3)
    show ?thesis using assms p Continue o e by (cases c2) simp_all
  next
    case Break
    then show ?thesis using assms p by simp
  next
    case Return
    then show ?thesis using assms p by simp
  qed
qed

lemma turn_loop_enemy_first:
  assumes "result s = ONGOING"
  shows "turn_loop [''enemy'', ''player''] pa it r [] s =
           (if is_dead (character (snd (enemy_attack s r)))
            then ([fst (enemy_attack s r)], (snd (enemy_attack s r))\<lparr>result := DEFEAT\<rparr>)
            else (case player_turn pa it r [fst (enemy_attack s r)] (snd (enemy_attack s r)) of
                    (ctl, m', s3) \<Rightarrow> (m', s3)))"
proof (cases "is_dead (character (snd (enemy_attack s r)))")
  case True
  with assms show ?thesis by (simp add: enemy_turn_eq)
next
  case False
  have o: "result (snd (enemy_attack s r)) = ONGOING"
    using enemy_attack_frame [of s r] assms by simp
  obtain c2 m' s3 where e:
    "player_turn pa it r [fst (enemy_attack s r)] (snd (enemy_attack s r)) = (c2, m', s3)"
    by (metis prod_cases3)
  show ?thesis using assms False o e by (cases c2) (simp_all add: enemy_turn_eq)
qed

lemma execute_turn_player_first:
  assumes "result s = ONGOING" "get_turn_order (counted s) r = [''player'', ''enemy'']"
  shows "execute_turn s pa it r =
           (case player_turn pa it r [] (counted s) of
              (Continue, m, s2) \<Rightarrow> (case enemy_turn r m s2 of (ctl, m', s3) \<Rightarrow> (m', s3))
            | (ctl, m, s2) \<Rightarrow> (m, s2))"
  using assms turn_loop_player_first [of "counted s" pa it r]
  by (simp add: execute_turn_def Let_def)

lemma execute_turn_enemy_first:
  assumes "result s = ONGOING" "get_turn_order (counted s) r = [''enemy'', ''player'']"
  shows "execute_turn s pa it r =
           (if is_dead (character (snd (enemy_attack (counted s) r)))
            then ([fst (enemy_attack (counted s) r)],
                  (snd (enemy_attack (counted s) r))\<lparr>result := DEFEAT\<rparr>)
            else (case player_turn pa it r [fst (enemy_attack (counted s) r)]
                         (snd (enemy_attack (counted s) r)) of
                    (ctl, m', s3) \<Rightarrow> (m', s3)))"
  using assms turn_loop_enemy_first [of "counted s" pa it r]
  by (simp add: execute_turn_def Let_def)

lemma player_attack_character: "character (snd (player_attack s r)) = character s"
  by (simp add: player_attack_def Let_def log_def split_beta)

lemma attempt_flee_combatants:
  "character (snd (attempt_flee s r)) = character s \<and> enemy (snd (attempt_flee s r)) = enemy s"
  by (simp add: attempt_flee_def Let_def log_def)

lemma attempt_flee_success:
  "fst (fst (attempt_flee s r)) \<Longrightarrow> snd (fst (attempt_flee s r)) = ''You escaped!''"
  by (simp add: attempt_flee_def Let_def split: if_splits)

lemma attempt_flee_failure:
  "\<not> fst (fst (attempt_flee s r)) \<Longrightarrow>
     snd (fst (attempt_flee s r)) = ''Couldn'' @ [CHR 0x27] @ ''t escape!''"
  by (simp add: attempt_flee_def Let_def split: if_splits)

lemma player_use_item_invalid:
  "it = None \<or> (\<exists>i. it = Some i \<and> item_type i \<noteq> CONSUMABLE) \<Longrightarrow>
     \<not> fst (fst (player_use_item s it)) \<and> snd (player_use_item s it) = s"
  by (auto simp add: player_use_item_def split: option.splits item.splits)


text \<open>
  Claim C4, as the code has it, for a session that is \<open>ONGOING\<close>. With the player first in
  the turn order: an \<open>ATTACK\<close> that leaves the enemy without hp gives \<open>VICTORY\<close> and ends the
  turn with the player's message alone, the character untouched; a \<open>FLEE\<close> that succeeds
  gives \<open>FLED\<close> and ends the turn, both combatants untouched; \<open>USE_ITEM\<close> without an item or
  with an item that is not a consumable ends the turn and changes nothing but the turn
  count; a \<open>FLEE\<close> that fails, the enemy being alive, is followed by the enemy's attack.
  With the enemy first: the enemy attacks before the player acts; if the character is dead
  after it the result is \<open>DEFEAT\<close> and the player does not act, otherwise the player's
  action follows and ends the turn.
\<close>
theorem execute_turn_early_exit:
  assumes "result s = ONGOING"
  shows
   "(get_turn_order (counted s) r = [''player'', ''enemy''] \<longrightarrow>
       (\<not> enemy_is_alive (enemy (snd (player_attack (counted s) r))) \<longrightarrow>
          execute_turn s ATTACK it r =
            ([fst (player_attack (counted s) r)],
             (snd (player_attack (counted s) r))\<lparr>result := VICTORY\<rparr>) \<and>
          character (snd (execute_turn s ATTACK it r)) = character s) \<and>
       (fst (fst (attempt_flee (counted s) r)) \<longrightarrow>
          execute_turn s FLEE it r = ([''You escaped!''], snd (attempt_flee (counted s) r)) \<and>
          result (snd (execute_turn s FLEE it r)) = FLED \<and>
          character (snd (execute_turn s FLEE it r)) = character s \<and>
          enemy (snd (execute_turn s FLEE it r)) = enemy s) \<and>
       (it = None \<or> (\<exists>i. it = Some i \<and> item_type i \<noteq> CONSUMABLE) \<longrightarrow>
          execute_turn s USE_ITEM it r = ([snd (fst (player_use_item (counted s) it))], counted s)) \<and>
       (\<not> fst (fst (attempt_flee (counted s) r)) \<and> enemy_is_alive (enemy s) \<longrightarrow>
          execute_turn s FLEE it r =
            (let s2 = snd (attempt_flee (counted s) r);
                 msgs = [''Couldn'' @ [CHR 0x27] @ ''t escape!'', fst (enemy_attack s2 r)]
             in if is_dead (character (snd (enemy_attack s2 r)))
                then (msgs, (snd (enemy_attack s2 r))\<lparr>result := DEFEAT\<rparr>)
                else (msgs, snd (enemy_attack s2 r))))) \<and>
    (get_turn_order (counted s) r = [''enemy'', ''player''] \<longrightarrow>
       (is_dead (character (snd (enemy_attack (counted s) r))) \<longrightarrow>
          execute_turn s pa it r =
            ([fst (enemy_attack (counted s) r)],
             (snd (enemy_attack (counted s) r))\<lparr>result := DEFEAT\<rparr>)) \<and>
       (\<not> is_dead (character (snd (enemy_attack (counted s) r))) \<longrightarrow>
          execute_turn s pa it r =
            snd (player_turn pa it r [fst (enemy_attack (counted s) r)]
                   (snd (enemy_attack (counted s) r)))))"
proof -
  let ?s1 = "counted s"
  have a: "execute_turn s ATTACK it r =
            ([fst (player_attack ?s1 r)], (snd (player_attack ?s1 r))\<lparr>result := VICTORY\<rparr>) \<and>
          character (snd (execute_turn s ATTACK it r)) = character s"
    if "get_turn_order ?s1 r = [''player'', ''enemy'']"
      "\<not> enemy_is_alive (enemy (snd (player_attack ?s1 r)))"
    using that assms execute_turn_player_first [of s r ATTACK it] player_attack_character [of ?s1 r]
    by (simp add: player_turn_ATTACK)
  have b: "execute_turn s FLEE it r = ([''You escaped!''], snd (attempt_flee ?s1 r)) \<and>
          result (snd (execute_turn s FLEE it r)) = FLED \<and>
          character (snd (execute_turn s FLEE it r)) = character s \<and>
          enemy (snd (execute_turn s FLEE it r)) = enemy s"
    if "get_turn_order ?s1 r = [''player'', ''enemy'']" "fst (fst (attempt_flee ?s1 r))"
    using that assms execute_turn_player_first [of s r FLEE it] attempt_flee_result [of ?s1 r]
      attempt_flee_combatants [of ?s1 r] attempt_flee_success [of ?s1 r]
    by (simp add: player_turn_FLEE)
  have c: "execute_turn s USE_ITEM it r = ([snd (fst (player_use_item ?s1 it))], ?s1)"
    if "get_turn_order ?s1 r = [''player'', ''enemy'']"
      "it = None \<or> (\<exists>i. it = Some i \<and> item_type i \<noteq> CONSUMABLE)"
    using that(1) assms execute_turn_player_first [of s r USE_ITEM it]
      player_use_item_invalid [OF that(2), of ?s1]
    by (simp add: player_turn_USE_ITEM)
  have d: "execute_turn s FLEE it r =
            (let s2 = snd (attempt_flee ?s1 r);
                 msgs = [''Couldn'' @ [CHR 0x27] @ ''t escape!'', fst (enemy_attack s2 r)]
             in if is_dead (character (snd (enemy_attack s2 r)))
                then (msgs, (snd (enemy_attack s2 r))\<lparr>result := DEFEAT\<rparr>)
                else (msgs, snd (enemy_attack s2 r)))"
    if "get_turn_order ?s1 r = [''player'', ''enemy'']"
      "\<not> fst (fst (attempt_flee ?s1 r))" "enemy_is_alive (enemy s)"
    using that assms execute_turn_player_first [of s r FLEE it]
      attempt_flee_combatants [of ?s1 r] attempt_flee_failure [of ?s1 r]
    by (simp add: player_turn_FLEE enemy_turn_eq Let_def)
  have e1: "execute_turn s pa it r =
            ([fst (enemy_attack ?s1 r)], (snd (enemy_attack ?s1 r))\<lparr>result := DEFEAT\<rparr>)"
    if "get_turn_order ?s1 r = [''enemy'', ''player'']"
      "is_dead (character (snd (enemy_attack ?s1 r)))"
    using that assms execute_turn_enemy_first [of s r pa it] by simp
  have e2: "execute_turn s pa it r =
            snd (player_turn pa it r [fst (enemy_attack ?s1 r)] (snd (enemy_attack ?s1 r)))"
    if "get_turn_order ?s1 r = [''enemy'', ''player'']"
      "\<not> is_dead (character (snd (enemy_attack ?s1 r)))"
    using that assms execute_turn_enemy_first [of s r pa it] by (simp add: split_beta)
  show ?thesis
  proof (rule conjI; rule impI)
    assume pf: "get_turn_order ?s1 r = [''player'', ''enemy'']"
    show "(\<not> enemy_is_alive (enemy (snd (player_attack ?s1 r))) \<longrightarrow>
          execute_turn s ATTACK it r =
            ([fst (player_attack ?s1 r)], (snd (player_attack ?s1 r))\<lparr>result := VICTORY\<rparr>) \<and>
          character (snd (execute_turn s ATTACK it r)) = character s) \<and>
       (fst (fst (attempt_flee ?s1 r)) \<longrightarrow>
          execute_turn s FLEE it r = ([''You escaped!''], snd (attempt_flee ?s1 r)) \<and>
          result (snd (execute_turn s FLEE it r)) = FLED \<and>
          character (snd (execute_turn s FLEE it r)) = character s \<and>
          enemy (snd (execute_turn s FLEE it r)) = enemy s) \<and>
       (it = None \<or> (\<exists>i. it = Some i \<and> item_type i \<noteq> CONSUMABLE) \<longrightarrow>
          execute_turn s USE_ITEM it r = ([snd (fst (player_use_item ?s1 it))], ?s1)) \<and>
       (\<not> fst (fst (attempt_flee ?s1 r)) \<and> enemy_is_alive (enemy s) \<longrightarrow>
          execute_turn s FLEE it r =
            (let s2 = snd (attempt_flee ?s1 r);
                 msgs = [''Couldn'' @ [CHR 0x27] @ ''t escape!'', fst (enemy_attack s2 r)]
             in if is_dead (character (snd (enemy_attack s2 r)))
                then (msgs, (snd (enemy_attack s2 r))\<lparr>result := DEFEAT\<rparr>)
                else (msgs, snd (enemy_attack s2 r))))"
      using a [OF pf] b [OF pf] c [OF pf] d [OF pf] by blast
  next
    assume ef: "get_turn_order ?s1 r = [''enemy'', ''player'']"
    show "(is_dead (character (snd (enemy_attack ?s1 r))) \<longrightarrow>
          execute_turn s pa it r =
            ([fst (enemy_attack ?s1 r)], (snd (enemy_attack ?s1 r))\<lparr>result := DEFEAT\<rparr>)) \<and>
       (\<not> is_dead (character (snd (enemy_attack ?s1 r))) \<longrightarrow>
          execute_turn s pa it r =
            snd (player_turn pa it r [fst (enemy_attack ?s1 r)] (snd (enemy_attack ?s1 r))))"
      using e1 [OF ef] e2 [OF ef] by blast
  qed
qed



text \<open>
  The enemy acts in the turn of a victory when it is first: a fresh character against a
  Slime with 1 hp, the Slime rolling 13 against 10. The Slime deals 7, then the attack wins.
\<close>
theorem enemy_acts_before_victory_counterexample:
  "result (Combat_init hero weak_slime) = ONGOING \<and>
   hp (base_stats (character (Combat_init hero weak_slime))) = 100 \<and>
   fst (execute_turn (Combat_init hero weak_slime) ATTACK None high_rolls) =
     [''Slime deals 7 damage!'', ''You deal 19 damage!''] \<and>
   enemy_hp (enemy (snd (execute_turn (Combat_init hero weak_slime) ATTACK None high_rolls))) = 0 \<and>
   result (snd (execute_turn (Combat_init hero weak_slime) ATTACK None high_rolls)) = VICTORY \<and>
   hp (base_stats (character (snd (execute_turn (Combat_init hero weak_slime) ATTACK None high_rolls)))) = 93"
  by (simp add: eval_defs)


text \<open>Each case at a fresh or a weak character against the Slime.\<close>
theorem execute_turn_early_exit_witness:
  "result (Combat_init hero weak_slime) = ONGOING \<and>
   get_turn_order (counted (Combat_init hero weak_slime)) low_rolls = [''player'', ''enemy''] \<and>
   \<not> enemy_is_alive (enemy (snd (player_attack (counted (Combat_init hero weak_slime)) low_rolls))) \<and>
   result (snd (execute_turn (Combat_init hero weak_slime) ATTACK None low_rolls)) = VICTORY \<and>
   character (snd (execute_turn (Combat_init hero weak_slime) ATTACK None low_rolls)) = hero \<and>
   fst (fst (attempt_flee (counted (Combat_init hero weak_slime)) low_rolls)) \<and>
   result (snd (execute_turn (Combat_init hero weak_slime) FLEE None low_rolls)) = FLED \<and>
   execute_turn (Combat_init hero weak_slime) USE_ITEM None low_rolls =
     ([''No item selected.''], counted (Combat_init hero weak_slime)) \<and>
   result (Combat_init hero slime) = ONGOING \<and>
   get_turn_order (counted (Combat_init hero slime)) mixed_rolls = [''player'', ''enemy''] \<and>
   \<not> fst (fst (attempt_flee (counted (Combat_init hero slime)) mixed_rolls)) \<and>
   enemy_is_alive (enemy (Combat_init hero slime)) \<and>
   fst (execute_turn (Combat_init hero slime) FLEE None mixed_rolls) =
     [''Couldn'' @ [CHR 0x27] @ ''t escape!'', ''Slime deals 5 damage!''] \<and>
   result (Combat_init weak_hero slime) = ONGOING \<and>
   get_turn_order (counted (Combat_init weak_hero slime)) high_rolls = [''enemy'', ''player''] \<and>
   is_dead (character (snd (enemy_attack (counted (Combat_init weak_hero slime)) high_rolls))) \<and>
   fst (execute_turn (Combat_init weak_hero slime) ATTACK None high_rolls) = [''Slime deals 7 damage!''] \<and>
   result (snd (execute_turn (Combat_init weak_hero slime) ATTACK None high_rolls)) = DEFEAT \<and>
   get_turn_order (counted (Combat_init hero weak_slime)) high_rolls = [''enemy'', ''player''] \<and>
   \<not> is_dead (character (snd (enemy_attack (counted (Combat_init hero weak_slime)) high_rolls))) \<and>
   execute_turn (Combat_init hero weak_slime) DEFEND None high_rolls =
     snd (player_turn DEFEND None high_rolls
            [fst (enemy_attack (counted (Combat_init hero weak_slime)) high_rolls)]
            (snd (enemy_attack (counted (Combat_init hero weak_slime)) high_rolls)))"
proof -
  let ?a = "Combat_init hero weak_slime"
  let ?b = "Combat_init hero slime"
  let ?c = "Combat_init weak_hero slime"
  have o: "result ?a = ONGOING" "result ?b = ONGOING" "result ?c = ONGOING"
    by (simp_all add: Combat_init_def)
  have a1: "get_turn_order (counted ?a) low_rolls = [''player'', ''enemy'']"
    by (simp add: eval_defs)
  have a2: "\<not> enemy_is_alive (enemy (snd (player_attack (counted ?a) low_rolls)))"
    by (simp add: eval_defs)
  have a3: "fst (fst (attempt_flee (counted ?a) low_rolls))"
    by (simp add: eval_defs)
  have a4: "snd (fst (player_use_item (counted ?a) None)) = ''No item selected.''"
    by (simp add: player_use_item_def)
  have a5: "character ?a = hero"
    by (simp add: Combat_init_def)
  have b1: "get_turn_order (counted ?b) mixed_rolls = [''player'', ''enemy'']"
    by (simp add: eval_defs)
  have b2: "\<not> fst (fst (attempt_flee (counted ?b) mixed_rolls))"
    by (simp add: eval_defs)
  have b3: "enemy_is_alive (enemy ?b)"
    by (simp add: eval_defs)
  have b4: "fst (enemy_attack (snd (attempt_flee (counted ?b) mixed_rolls)) mixed_rolls) =
              ''Slime deals 5 damage!''"
    by (simp add: eval_defs)
  have c1: "get_turn_order (counted ?c) high_rolls = [''enemy'', ''player'']"
    by (simp add: eval_defs)
  have c2: "is_dead (character (snd (enemy_attack (counted ?c) high_rolls)))"
    by (simp add: eval_defs)
  have c3: "fst (enemy_attack (counted ?c) high_rolls) = ''Slime deals 7 damage!''"
    by (simp add: eval_defs)
  have d1: "get_turn_order (counted ?a) high_rolls = [''enemy'', ''player'']"
    by (simp add: eval_defs)
  have d2: "\<not> is_dead (character (snd (enemy_attack (counted ?a) high_rolls)))"
    by (simp add: eval_defs)
  note A = execute_turn_early_exit [OF o(1), of low_rolls None ATTACK]
  note B = execute_turn_early_exit [OF o(2), of mixed_rolls None ATTACK]
  note C = execute_turn_early_exit [OF o(3), of high_rolls None ATTACK]
  note D = execute_turn_early_exit [OF o(1), of high_rolls None DEFEND]
  have A1: "execute_turn ?a ATTACK None low_rolls =
              ([fst (player_attack (counted ?a) low_rolls)],
               (snd (player_attack (counted ?a) low_rolls))\<lparr>result := VICTORY\<rparr>)"
    and A2: "character (snd (execute_turn ?a ATTACK None low_rolls)) = character ?a"
    and A3: "result (snd (execute_turn ?a FLEE None low_rolls)) = FLED"
    and A4: "execute_turn ?a USE_ITEM None low_rolls =
               ([snd (fst (player_use_item (counted ?a) None))], counted ?a)"
    using A a1 a2 a3 by blast+
  have ra: "result (snd (execute_turn ?a ATTACK None low_rolls)) = VICTORY"
    "character (snd (execute_turn ?a ATTACK None low_rolls)) = hero"
    "result (snd (execute_turn ?a FLEE None low_rolls)) = FLED"
    "execute_turn ?a USE_ITEM None low_rolls = ([''No item selected.''], counted ?a)"
    using A1 A2 A3 A4 a4 a5 by simp_all
  have B1: "execute_turn ?b FLEE None mixed_rolls =
            (let s2 = snd (attempt_flee (counted ?b) mixed_rolls);
                 msgs = [''Couldn'' @ [CHR 0x27] @ ''t escape!'', fst (enemy_attack s2 mixed_rolls)]
             in if is_dead (character (snd (enemy_attack s2 mixed_rolls)))
                then (msgs, (snd (enemy_attack s2 mixed_rolls))\<lparr>result := DEFEAT\<rparr>)
                else (msgs, snd (enemy_attack s2 mixed_rolls)))"
    using B b1 b2 b3 by blast
  have rb: "fst (execute_turn ?b FLEE None mixed_rolls) =
              [''Couldn'' @ [CHR 0x27] @ ''t escape!'', ''Slime deals 5 damage!'']"
    unfolding B1 using b4 by (simp add: Let_def)
  have C1: "execute_turn ?c ATTACK None high_rolls =
            ([fst (enemy_attack (counted ?c) high_rolls)],
             (snd (enemy_attack (counted ?c) high_rolls))\<lparr>result := DEFEAT\<rparr>)"
    using C c1 c2 by blast
  have rc: "fst (execute_turn ?c ATTACK None high_rolls) = [''Slime deals 7 damage!'']"
    "result (snd (execute_turn ?c ATTACK None high_rolls)) = DEFEAT"
    unfolding C1 using c3 by simp_all
  have rd: "execute_turn ?a DEFEND None high_rolls =
     snd (player_turn DEFEND None high_rolls
            [fst (enemy_attack (counted ?a) high_rolls)] (snd (enemy_attack (counted ?a) high_rolls)))"
    using D d1 d2 by blast
  show ?thesis
    using o a1 a2 a3 b1 b2 b3 c1 c2 d1 d2 ra rb rc rd by blast
qed


section \<open>The player's attack\<close>

lemma get_attack_damage_eq:
  "get_attack_damage c =
     2 * get_stat c ''strength'' +
       (case weapon (equipped c) of Some (Weapon n d st) \<Rightarrow> d | _ \<Rightarrow> 0)"
  by (simp add: get_attack_damage_def Let_def split: option.splits item.splits)

text \<open>
  Below \<open>2^51\<close> the product with \<open>1.5\<close> is a float as it is, and nothing is rounded.
\<close>

lemma crit_product:
  assumes "\<bar>b\<bar> < 2 ^ 51"
  shows "float_mul (float_of_int b) (fl (3 / 2)) = of_int (3 * b) / of_int 2"
proof -
  have "\<bar>b\<bar> < 2 ^ 53" using assms by simp
  then have a: "float_of_int b = of_int b" by (rule float_of_int_exact)
  have "\<bar>3 * b\<bar> < 2 ^ 53" using assms by simp
  then have c: "fl (of_int (3 * b) / 2) = of_int (3 * b) / 2" by (rule fl_half_integer)
  have e: "(of_int b :: rat) * (3 / 2) = of_int (3 * b) / 2" by simp
  show ?thesis
    unfolding a float_mul_def fl_three_halves e c by simp
qed

lemma crit_damage_trunc:
  assumes "\<bar>b\<bar> < 2 ^ 51"
  shows "crit_damage b = (if 0 \<le> b then (3 * b) div 2 else - ((3 * (- b)) div 2))"
proof -
  have f: "\<lfloor>(of_int (3 * b) :: rat) / of_int 2\<rfloor> = (3 * b) div 2"
    by (simp only: floor_divide_of_int_eq)
  have c: "\<lceil>(of_int (3 * b) :: rat) / of_int 2\<rceil> = - ((3 * (- b)) div 2)"
    using ceiling_divide_eq_div [of "3 * b" 2, where ?'a = rat] by simp
  have "(0 \<le> (of_int (3 * b) :: rat) / of_int 2) = (0 \<le> (of_int (3 * b) :: rat))"
    by (simp add: zero_le_divide_iff)
  also have "\<dots> = (0 \<le> 3 * b)"
    by (simp only: of_int_0_le_iff)
  finally have s: "(0 \<le> (of_int (3 * b) :: rat) / of_int 2) = (0 \<le> b)"
    by simp
  show ?thesis
    unfolding crit_damage_def crit_product [OF assms] py_int_def f c s by simp
qed

lemma crit_damage_floor:
  assumes "0 \<le> b" "b < 2 ^ 51"
  shows "crit_damage b = \<lfloor>(3 / 2 :: rat) * of_int b\<rfloor>"
proof -
  have a: "\<bar>b\<bar> < 2 ^ 51" using assms by simp
  have e: "(3 / 2 :: rat) * of_int b = of_int (3 * b) / of_int 2" by simp
  have f: "\<lfloor>(of_int (3 * b) :: rat) / of_int 2\<rfloor> = (3 * b) div 2"
    by (simp only: floor_divide_of_int_eq)
  show ?thesis
    unfolding crit_damage_trunc [OF a] e f using assms(1) by simp
qed

lemma player_attack_enemy:
  "enemy (snd (player_attack s r)) =
     snd (enemy_take_damage (enemy s)
            (if crit_draw r < get_crit_chance (character s)
             then crit_damage (get_attack_damage (character s))
             else get_attack_damage (character s)))"
  by (simp add: player_attack_def Let_def log_def split_beta)

lemma player_attack_messages:
  "fst (player_attack s r) =
     (let dealt = fst (enemy_take_damage (enemy s)
            (if crit_draw r < get_crit_chance (character s)
             then crit_damage (get_attack_damage (character s))
             else get_attack_damage (character s)))
      in if crit_draw r < get_crit_chance (character s)
         then boom @ '' CRITICAL HIT! You deal '' @ str_int dealt @ '' damage!''
         else ''You deal '' @ str_int dealt @ '' damage!'')"
  by (simp add: player_attack_def Let_def log_def split_beta)

lemma player_attack_log:
  "combat_log (snd (player_attack s r)) = combat_log s @
     [let dealt = fst (enemy_take_damage (enemy s)
            (if crit_draw r < get_crit_chance (character s)
             then crit_damage (get_attack_damage (character s))
             else get_attack_damage (character s)))
      in if crit_draw r < get_crit_chance (character s)
         then boom @ '' CRITICAL HIT! You deal '' @ str_int dealt @ '' damage to ''
                @ enemy_name (enemy s) @ ''!''
         else ''You attack '' @ enemy_name (enemy s) @ '' for '' @ str_int dealt @ '' damage.'']"
  by (simp add: player_attack_def Let_def log_def split_beta enemy_take_damage_def)

lemma crit_messages_differ:
  "crit_draw r < get_crit_chance (character s) \<Longrightarrow>
   \<not> crit_draw r' < get_crit_chance (character s') \<Longrightarrow>
     fst (player_attack s r) \<noteq> fst (player_attack s' r') \<and>
     last (combat_log (snd (player_attack s r))) \<noteq> last (combat_log (snd (player_attack s' r')))"
  by (simp add: player_attack_messages player_attack_log Let_def boom_def)


text \<open>
  Claim C7, as the code has it, for a luck below \<open>2^53\<close>, an attack damage below \<open>2^51\<close> and an
  enemy defense below \<open>2^52\<close> in magnitude. The attack damage is twice the effective strength
  plus the damage of the weapon in the weapon slot, if one is there. \<open>player_attack\<close> passes
  to the enemy's \<open>take_damage\<close> the value \<open>int(attack damage * 1.5)\<close>, truncated towards zero,
  when the draw is below the crit chance, and the attack damage otherwise; the truncation is
  \<open>floor(1.5 * attack damage)\<close> when the attack damage is not negative. The returned message
  and the logged message of a critical hit differ from those of a normal hit.
\<close>
theorem player_attack_damage:
  assumes "\<bar>b\<bar> < 2 ^ 51"
    and "\<bar>get_stat (character s) ''luck''\<bar> < 2 ^ 53"
      "\<bar>get_attack_damage (character s)\<bar> < 2 ^ 51" "\<bar>enemy_defense (enemy s)\<bar> < 2 ^ 52"
    and "\<bar>get_stat (character s') ''luck''\<bar> < 2 ^ 53"
      "\<bar>get_attack_damage (character s')\<bar> < 2 ^ 51" "\<bar>enemy_defense (enemy s')\<bar> < 2 ^ 52"
  shows
  "get_attack_damage c =
     2 * get_stat c ''strength'' +
       (case weapon (equipped c) of Some (Weapon n d st) \<Rightarrow> d | _ \<Rightarrow> 0) \<and>
   enemy (snd (player_attack s r)) =
     snd (enemy_take_damage (enemy s)
            (if crit_draw r < get_crit_chance (character s)
             then crit_damage (get_attack_damage (character s))
             else get_attack_damage (character s))) \<and>
   crit_damage (get_attack_damage (character s)) =
     (if 0 \<le> get_attack_damage (character s) then (3 * get_attack_damage (character s)) div 2
      else - ((3 * (- get_attack_damage (character s))) div 2)) \<and>
   crit_damage b = (if 0 \<le> b then (3 * b) div 2 else - ((3 * (- b)) div 2)) \<and>
   (0 \<le> b \<longrightarrow> crit_damage b = spec_crit_damage b) \<and>
   (crit_draw r < get_crit_chance (character s) \<and>
    \<not> crit_draw r' < get_crit_chance (character s') \<longrightarrow>
      fst (player_attack s r) \<noteq> fst (player_attack s' r') \<and>
      last (combat_log (snd (player_attack s r)))
        \<noteq> last (combat_log (snd (player_attack s' r'))))"
proof -
  have f: "0 \<le> b \<longrightarrow> crit_damage b = spec_crit_damage b"
  proof
    assume "0 \<le> b"
    moreover have "b < 2 ^ 51" using assms(1) by simp
    ultimately show "crit_damage b = spec_crit_damage b"
      unfolding spec_crit_damage_def by (rule crit_damage_floor)
  qed
  show ?thesis
    using get_attack_damage_eq [of c] player_attack_enemy [of s r] crit_damage_trunc [OF assms(1)]
      crit_damage_trunc [OF assms(3)] f crit_messages_differ [of r s r' s']
    by blast
qed

text \<open>At an attack damage of \<open>-1\<close> the critical hit passes \<open>-1\<close>, and the floor is \<open>-2\<close>.\<close>
theorem crit_damage_floor_counterexample:
  "get_attack_damage feeble_hero = - 1 \<and>
   crit_draw low_rolls < get_crit_chance feeble_hero \<and>
   crit_damage (get_attack_damage feeble_hero) = - 1 \<and>
   spec_crit_damage (get_attack_damage feeble_hero) = - 2"
proof -
  have a: "get_attack_damage feeble_hero = - 1"
    by (simp add: feeble_hero_def hero_def Character_init_def allocate_stat_def equip_item_def
        slot_get_def slot_set_def stick_def base_get_def base_add_def bonus_get_def
        get_attack_damage_def get_stat_def Let_def)
  have b: "crit_draw low_rolls < get_crit_chance feeble_hero"
    by (simp add: feeble_hero_def hero_def Character_init_def allocate_stat_def equip_item_def
        slot_get_def slot_set_def stick_def base_get_def base_add_def bonus_get_def
        get_crit_chance_def get_stat_def Let_def low_rolls_def float_eval)
  have "\<bar>- 1 :: int\<bar> < 2 ^ 51" by simp
  then have c: "crit_damage (- 1) = - 1"
    by (simp add: crit_damage_trunc)
  have d: "spec_crit_damage (- 1) = - 2"
    by (simp add: spec_crit_damage_def floor_eq_iff)
  show ?thesis unfolding a using b c d by simp
qed

text \<open>A fresh character against the Slime: attack damage 20, 30 on a critical hit.\<close>
theorem player_attack_damage_witness:
  "\<bar>20 :: int\<bar> < 2 ^ 51 \<and>
   \<bar>get_stat (character (Combat_init hero slime)) ''luck''\<bar> < 2 ^ 53 \<and>
   \<bar>get_attack_damage (character (Combat_init hero slime))\<bar> < 2 ^ 51 \<and>
   \<bar>enemy_defense (enemy (Combat_init hero slime))\<bar> < 2 ^ 52 \<and>
   (0::int) \<le> 20 \<and> get_attack_damage hero = 20 \<and> crit_damage 20 = 30 \<and> spec_crit_damage 20 = 30 \<and>
   crit_draw low_rolls < get_crit_chance (character (Combat_init hero slime)) \<and>
   \<not> crit_draw high_rolls < get_crit_chance (character (Combat_init hero slime)) \<and>
   fst (player_attack (Combat_init hero slime) low_rolls)
     \<noteq> fst (player_attack (Combat_init hero slime) high_rolls)"
proof -
  let ?s = "Combat_init hero slime"
  have a: "crit_draw low_rolls < get_crit_chance (character ?s)"
    "\<not> crit_draw high_rolls < get_crit_chance (character ?s)"
    by (simp_all add: eval_defs)
  have b: "get_stat hero ''strength'' = 10" "weapon (equipped hero) = None"
    by (simp_all add: eval_defs)
  have c: "spec_crit_damage 20 = 30"
    by (simp add: spec_crit_damage_def)
  have h: "\<bar>20 :: int\<bar> < 2 ^ 51" by simp
  have k: "\<bar>get_stat (character ?s) ''luck''\<bar> < 2 ^ 53"
    "\<bar>get_attack_damage (character ?s)\<bar> < 2 ^ 51" "\<bar>enemy_defense (enemy ?s)\<bar> < 2 ^ 52"
    by (simp_all add: Combat_init_def hero_def Character_init_def slime_def Enemy_init_def
        get_stat_def base_get_def bonus_get_def get_attack_damage_def Let_def)
  show ?thesis
    using player_attack_damage [OF h k k, of hero low_rolls high_rolls] a b c h k
    by simp
qed


section \<open>Rewards\<close>

lemma loot_loop_set:
  "set (loot_loop tbl draws i) =
     {fst (tbl ! k) | k. k < length tbl \<and> draws (i + k) < snd (tbl ! k)}"
proof (induction tbl arbitrary: i)
  case Nil
  show ?case by simp
next
  case (Cons e tbl)
  obtain item_id drop_chance where e: "e = (item_id, drop_chance)" by (cases e)
  have split: "{fst ((e # tbl) ! k) | k. k < length (e # tbl) \<and> draws (i + k) < snd ((e # tbl) ! k)} =
        (if draws i < drop_chance then {item_id} else {}) \<union>
        {fst (tbl ! k) | k. k < length tbl \<and> draws (Suc i + k) < snd (tbl ! k)}"
    (is "?L = ?R")
  proof (rule set_eqI)
    fix x
    show "(x \<in> ?L) = (x \<in> ?R)"
    proof
      assume "x \<in> ?L"
      then obtain k where k: "x = fst ((e # tbl) ! k)" "k < length (e # tbl)"
        "draws (i + k) < snd ((e # tbl) ! k)" by blast
      show "x \<in> ?R"
      proof (cases k)
        case 0
        with k e show ?thesis by simp
      next
        case (Suc j)
        with k have "x = fst (tbl ! j)" "j < length tbl" "draws (Suc i + j) < snd (tbl ! j)"
          by simp_all
        then show ?thesis by blast
      qed
    next
      assume "x \<in> ?R"
      then consider "draws i < drop_chance" "x = item_id"
        | j where "x = fst (tbl ! j)" "j < length tbl" "draws (Suc i + j) < snd (tbl ! j)"
        by (auto split: if_splits)
      then show "x \<in> ?L"
      proof cases
        case 1
        then have "x = fst ((e # tbl) ! 0) \<and> 0 < length (e # tbl) \<and> draws (i + 0) < snd ((e # tbl) ! 0)"
          using e by simp
        then show ?thesis by blast
      next
        case 2
        then have "x = fst ((e # tbl) ! Suc j) \<and> Suc j < length (e # tbl) \<and>
            draws (i + Suc j) < snd ((e # tbl) ! Suc j)"
          by simp
        then show ?thesis by blast
      qed
    qed
  qed
  show ?case unfolding split using Cons.IH [of "Suc i"] e by auto
qed

lemma loot_loop_filter:
  "loot_loop tbl draws i =
     map (\<lambda>(k, e). fst e)
       (filter (\<lambda>(k, e). draws k < snd e) (zip [i..<i + length tbl] tbl))"
proof (induction tbl arbitrary: i)
  case Nil
  show ?case by simp
next
  case (Cons e tbl)
  obtain item_id drop_chance where e: "e = (item_id, drop_chance)" by (cases e)
  have "[i..<i + length (e # tbl)] = i # [Suc i..<Suc i + length tbl]"
    by (simp add: upt_conv_Cons del: upt_Suc)
  then have u:
    "zip [i..<i + length (e # tbl)] (e # tbl) = (i, e) # zip [Suc i..<Suc i + length tbl] tbl"
    by (simp del: upt_Suc)
  show ?case
    unfolding u using Cons.IH [of "Suc i"] by (simp add: e)
qed

text \<open>
  Claim C8 at the Vampire Lord (gold reward 100) and a luck of 29: \<open>get_rewards\<close> returns
  128 gold, since \<open>29 * 0.01\<close> and its product with 100 are rounded to binary64 and the
  product falls just below 29; the formula of the specification gives 129.
\<close>
theorem get_rewards_gold_rounding:
  "result ((Combat_init lucky_hero vampire)\<lparr>result := VICTORY\<rparr>) = VICTORY \<and>
   get_stat lucky_hero ''luck'' = 29 \<and>
   gold_reward vampire = 100 \<and>
   rewards_gold (get_rewards ((Combat_init lucky_hero vampire)\<lparr>result := VICTORY\<rparr>) draws) = 128 \<and>
   spec_gold (gold_reward vampire) (get_stat lucky_hero ''luck'') = 129"
proof -
  have l: "get_stat lucky_hero ''luck'' = 29"
    by (simp add: lucky_hero_def hero_def Character_init_def allocate_stat_def equip_item_def
        slot_get_def slot_set_def dragon_slayer_def silver_amulet_def base_get_def base_add_def
        bonus_get_def bonus_add_def get_stat_def set_hp_def Let_def)
  have g: "gold_reward vampire = 100"
    by (simp add: vampire_def Enemy_init_def)
  have g1: "float_mul (float_of_int 29) (5764607523034235 / 576460752303423488) =
      5224175567749775 / 18014398509481984"
    using fl_cert [of "- 54" "29 * (5764607523034235 / 576460752303423488)" 5224175567749775]
    by (simp add: float_mul_def float_add_def float_sub_def float_of_int_def fl_numeral fl_1)
  have g2: "float_mul (float_of_int 100) (5224175567749775 / 18014398509481984) =
      8162774324609023 / 281474976710656"
    using fl_cert [of "- 48" "100 * (5224175567749775 / 18014398509481984)" 8162774324609023]
    by (simp add: float_mul_def float_add_def float_sub_def float_of_int_def fl_numeral fl_1)
  have k: "py_int (float_mul (float_of_int 100) (float_mul (float_of_int 29) (fl (1 / 100)))) = 28"
    unfolding fl_hundredth g1 g2 by (simp add: py_int_def floor_rat_numeral)
  have r: "rewards_gold (get_rewards ((Combat_init lucky_hero vampire)\<lparr>result := VICTORY\<rparr>) draws) = 128"
    by (simp add: get_rewards_def Combat_init_def Let_def l g k)
  have s: "spec_gold 100 29 = 129"
    by (simp add: spec_gold_def)
  show ?thesis
    unfolding l g using r s by simp
qed

lemma get_rewards_victory:
  "result s = VICTORY \<Longrightarrow>
     rewards_xp (get_rewards s draws) = xp_reward (enemy s) \<and>
     rewards_loot (get_rewards s draws) =
       map (\<lambda>(k, e). fst e)
         (filter (\<lambda>(k, e). draws k < snd e)
            (zip [0..<length (loot_table (enemy s))] (loot_table (enemy s))))"
  using loot_loop_filter [of "loot_table (enemy s)" draws 0]
  by (simp add: get_rewards_def get_loot_def Let_def)


section \<open>The hit point invariant\<close>







































end
